theory Spec2Isabelle
  imports Complex_Main "HOL-Library.List_Lexorder" "HOL-Library.Char_ord" "HOL-Library.AList"
begin

section \<open>JavaScript numbers and strings\<close>

text \<open>
  The extension is TypeScript; the aggregation functions run as plain JavaScript inside
  the summary webview. A JavaScript number is modelled by a \<^typ>\<open>real\<close>: the finite values,
  without the rounding of binary floating point (NaN and the infinities are left out).
  Counters that only ever hold small whole numbers are \<^typ>\<open>nat\<close> or \<^typ>\<open>int\<close>.
  A JavaScript string is a \<^typ>\<open>string\<close>; the order on strings is the lexicographic
  order on character codes, which is what \<^verbatim>\<open><=\<close> and the default \<^verbatim>\<open>sort()\<close> use.
\<close>

text \<open>\<^verbatim>\<open>Math.round\<close>: the nearest integer, a tie going towards plus infinity.\<close>

definition Math_round :: "real \<Rightarrow> int" where
  "Math_round x = \<lfloor>x + 1 / 2\<rfloor>"

text \<open>The remainder operator \<^verbatim>\<open>a % b\<close>: the quotient is truncated towards zero.\<close>

definition js_rem :: "real \<Rightarrow> real \<Rightarrow> real" where
  "js_rem a b = a - b * of_int (if 0 \<le> a / b then \<lfloor>a / b\<rfloor> else \<lceil>a / b\<rceil>)"

text \<open>
  A whole number inside a template literal is printed in decimal (below \<open>10\<^sup>2\<^sup>1\<close> in
  size, where JavaScript prints no exponent).
\<close>

definition digitChar :: "nat \<Rightarrow> char" where
  "digitChar n = ''0123456789'' ! n"

fun showNat :: "nat \<Rightarrow> string" where
  "showNat n = (if n < 10 then [digitChar n] else showNat (n div 10) @ [digitChar (n mod 10)])"

declare showNat.simps [simp del]

definition showInt :: "int \<Rightarrow> string" where
  "showInt i = (if i < 0 then CHR ''-'' # showNat (nat (- i)) else showNat (nat i))"

section \<open>utils.ts: formatTime\<close>

text \<open>
  \<^verbatim>\<open>
  export function formatTime(minutes: number): string {
      const hours = Math.floor(minutes / 60);
      const mins = Math.round(minutes % 60);
      return `${hours}h ${mins}m`;
  }
  \<close>
\<close>

definition formatTime_hours :: "real \<Rightarrow> int" where
  "formatTime_hours minutes = \<lfloor>minutes / 60\<rfloor>"

definition formatTime_mins :: "real \<Rightarrow> int" where
  "formatTime_mins minutes = Math_round (js_rem minutes 60)"

definition formatTime :: "real \<Rightarrow> string" where
  "formatTime minutes =
     (let hours = formatTime_hours minutes;
          mins = formatTime_mins minutes
      in showInt hours @ ''h '' @ showInt mins @ ''m'')"

section \<open>utils.ts: detectLanguageFromFile\<close>

text \<open>
  Strings here are sequences of character codes below 256; \<^verbatim>\<open>toLowerCase\<close> maps the
  capital letters of that range to their small letters. \<^verbatim>\<open>s.split(sep)\<close> always returns
  at least one piece, so \<^verbatim>\<open>.pop()\<close> is the last piece. \<^verbatim>\<open>includes\<close> is the substring test.
\<close>

definition toLowerChar :: "char \<Rightarrow> char" where
  "toLowerChar c =
     (let n = (of_char c :: nat)
      in if (65 \<le> n \<and> n \<le> 90) \<or> (192 \<le> n \<and> n \<le> 222 \<and> n \<noteq> 215) then char_of (n + 32) else c)"

definition toLowerCase :: "string \<Rightarrow> string" where
  "toLowerCase s = map toLowerChar s"

fun js_split :: "(char \<Rightarrow> bool) \<Rightarrow> string \<Rightarrow> string list" where
  "js_split sep [] = [[]]"
| "js_split sep (c # cs) =
     (if sep c then [] # js_split sep cs
      else (case js_split sep cs of [] \<Rightarrow> [[c]] | w # ws \<Rightarrow> (c # w) # ws))"

definition js_includes :: "string \<Rightarrow> string \<Rightarrow> bool" where
  "js_includes s sub = list_ex (\<lambda>n. take (length sub) (drop n s) = sub) [0..<Suc (length s)]"

text \<open>
  \<^verbatim>\<open>languageMap\<close> is an object literal. Reading \<^verbatim>\<open>languageMap[extension]\<close> finds an own
  property, or else a member that every object inherits from \<^verbatim>\<open>Object.prototype\<close>, or
  else \<^verbatim>\<open>undefined\<close>. An inherited member is a function or an object, not a string, and
  is truthy. So the value read, and with it the value the function returns, is a string
  or an inherited member, named here by its key.
\<close>

datatype jsValue = Str string | Inherited string

definition languageMap :: "(string \<times> string) list" where
  "languageMap =
     [(''js'', ''JavaScript''), (''mjs'', ''JavaScript''), (''jsx'', ''JavaScript''),
      (''ts'', ''TypeScript''), (''tsx'', ''TypeScript''),
      (''py'', ''Python''), (''pyw'', ''Python''), (''pyc'', ''Python''), (''pyo'', ''Python''),
      (''pyd'', ''Python''),
      (''java'', ''Java''), (''kt'', ''Kotlin''), (''kts'', ''Kotlin''), (''scala'', ''Scala''),
      (''groovy'', ''Groovy''),
      (''c'', ''C''), (''h'', ''C''), (''cpp'', ''C++''), (''cxx'', ''C++''), (''cc'', ''C++''),
      (''hpp'', ''C++''), (''hxx'', ''C++''), (''cs'', ''C#''),
      (''html'', ''HTML''), (''htm'', ''HTML''), (''css'', ''CSS''), (''scss'', ''SCSS''),
      (''sass'', ''Sass''), (''less'', ''Less''), (''vue'', ''Vue''), (''svelte'', ''Svelte''),
      (''php'', ''PHP''), (''php3'', ''PHP''), (''php4'', ''PHP''), (''php5'', ''PHP''),
      (''phps'', ''PHP''), (''phtml'', ''PHP''),
      (''rb'', ''Ruby''), (''rbw'', ''Ruby''),
      (''go'', ''Go''),
      (''rs'', ''Rust''),
      (''swift'', ''Swift''),
      (''dart'', ''Dart''),
      (''sh'', ''Shell''), (''bash'', ''Shell''), (''zsh'', ''Shell''), (''fish'', ''Shell''),
      (''ps1'', ''PowerShell''), (''psm1'', ''PowerShell''), (''psd1'', ''PowerShell''),
      (''sql'', ''SQL''),
      (''r'', ''R''),
      (''m'', ''MATLAB''),
      (''lua'', ''Lua''),
      (''pl'', ''Perl''), (''pm'', ''Perl''),
      (''hs'', ''Haskell''),
      (''ex'', ''Elixir''), (''exs'', ''Elixir''),
      (''fs'', ''F#''), (''fsx'', ''F#''), (''fsi'', ''F#''),
      (''clj'', ''Clojure''), (''cljs'', ''Clojure''), (''cljc'', ''Clojure''),
      (''json'', ''JSON''), (''xml'', ''XML''), (''yaml'', ''YAML''), (''yml'', ''YAML''),
      (''toml'', ''TOML''), (''ini'', ''INI''), (''cfg'', ''Config''), (''conf'', ''Config''),
      (''md'', ''Markdown''), (''markdown'', ''Markdown''), (''rst'', ''reStructuredText''),
      (''tex'', ''LaTeX''),
      (''dockerfile'', ''Dockerfile''), (''makefile'', ''Makefile''), (''cmake'', ''CMake''),
      (''gradle'', ''Gradle''), (''properties'', ''Properties'')]"

definition objectPrototypeKeys :: "string list" where
  "objectPrototypeKeys =
     [''constructor'', ''__defineGetter__'', ''__defineSetter__'', ''hasOwnProperty'',
      ''__lookupGetter__'', ''__lookupSetter__'', ''isPrototypeOf'', ''propertyIsEnumerable'',
      ''toString'', ''valueOf'', ''__proto__'', ''toLocaleString'']"

definition getProperty :: "(string \<times> string) list \<Rightarrow> string \<Rightarrow> jsValue option" where
  "getProperty obj key =
     (case map_of obj key of
        Some v \<Rightarrow> Some (Str v)
      | None \<Rightarrow> if key \<in> set objectPrototypeKeys then Some (Inherited key) else None)"

text \<open>
  \<^verbatim>\<open>
  export function detectLanguageFromFile(filePath: string): string {
      if (!filePath) { return 'unknown'; }
      const extension = filePath.split('.').pop()?.toLowerCase();
      const languageMap: { [key: string]: string } = { ... };
      if (extension && languageMap[extension]) {
          return languageMap[extension];
      }
      // Check for special filenames without extensions
      const filename = filePath.split(/[\\\/]/).pop()?.toLowerCase();
      if (filename) {
          if (filename === 'dockerfile') return 'Dockerfile';
          if (filename === 'makefile') return 'Makefile';
          if (filename === 'cmakelists.txt') return 'CMake';
          if (filename === 'package.json') return 'JSON';
          if (filename === 'tsconfig.json') return 'JSON';
          if (filename.includes('requirements.txt')) return 'Text';
          if (filename.includes('.env')) return 'Environment';
      }
      return 'Other';
  }
  \<close>
\<close>

fun truthy :: "jsValue \<Rightarrow> bool" where
  "truthy (Str s) = (s \<noteq> [])"
| "truthy (Inherited k) = True"

definition detectFromFilename :: "string \<Rightarrow> string" where
  "detectFromFilename filePath =
     (let filename = toLowerCase (last (js_split (\<lambda>c. c = CHR 0x5C \<or> c = CHR ''/'') filePath))
      in if filename \<noteq> []
         then
           (if filename = ''dockerfile'' then ''Dockerfile''
            else if filename = ''makefile'' then ''Makefile''
            else if filename = ''cmakelists.txt'' then ''CMake''
            else if filename = ''package.json'' then ''JSON''
            else if filename = ''tsconfig.json'' then ''JSON''
            else if js_includes filename ''requirements.txt'' then ''Text''
            else if js_includes filename ''.env'' then ''Environment''
            else ''Other'')
         else ''Other'')"

definition fileExtension :: "string \<Rightarrow> string" where
  "fileExtension filePath = toLowerCase (last (js_split (\<lambda>c. c = CHR ''.'') filePath))"

definition detectLanguageFromFile :: "string \<Rightarrow> jsValue" where
  "detectLanguageFromFile filePath =
     (if filePath = [] then Str ''unknown''
      else
        (let extension = fileExtension filePath
         in case getProperty languageMap extension of
              Some v \<Rightarrow> if extension \<noteq> [] \<and> truthy v then v
                        else Str (detectFromFilename filePath)
            | None \<Rightarrow> Str (detectFromFilename filePath)))"

section \<open>summaryView.ts: getIntensityLevel\<close>

text \<open>
  \<^verbatim>\<open>
  function getIntensityLevel(minutes) {
      if (minutes === 0) return 0;
      if (minutes < 60) return 1;  // Less than 1 hour
      if (minutes < 180) return 2; // 1-3 hours
      if (minutes < 360) return 3; // 3-6 hours
      return 4; // More than 6 hours
  }
  \<close>
\<close>

definition getIntensityLevel :: "real \<Rightarrow> nat" where
  "getIntensityLevel minutes =
     (if minutes = 0 then 0
      else if minutes < 60 then 1
      else if minutes < 180 then 2
      else if minutes < 360 then 3
      else 4)"

section \<open>The Date object\<close>

text \<open>
  A valid \<^verbatim>\<open>Date\<close> is its time value, the milliseconds since 1970-01-01T00:00:00Z, an
  \<^typ>\<open>int\<close>; an invalid one (\<^verbatim>\<open>new Date("x")\<close>) is \<^const>\<open>None\<close>. The calendar is the
  proleptic Gregorian one of ECMAScript. \<open>days_from_civil y m d\<close> is the day number of
  the date with month \<open>m\<close> in 1..12; \<open>civil_from_days\<close> is its inverse.
\<close>

definition msPerDay :: int where
  "msPerDay = 86400000"

definition days_from_civil :: "int \<Rightarrow> int \<Rightarrow> int \<Rightarrow> int" where
  "days_from_civil y m d =
     (let y' = (if m \<le> 2 then y - 1 else y);
          era = y' div 400;
          yoe = y' mod 400;
          mp = (m + 9) mod 12;
          doy = (153 * mp + 2) div 5 + d - 1;
          doe = yoe * 365 + yoe div 4 - yoe div 100 + doy
      in era * 146097 + doe - 719468)"

definition civil_from_days :: "int \<Rightarrow> int \<times> int \<times> int" where
  "civil_from_days z =
     (let z' = z + 719468;
          era = z' div 146097;
          doe = z' mod 146097;
          yoe = (doe - doe div 1460 + doe div 36524 - doe div 146096) div 365;
          doy = doe - (365 * yoe + yoe div 4 - yoe div 100);
          mp = (5 * doy + 2) div 153;
          d = doy - (153 * mp + 2) div 5 + 1;
          m = (if mp < 10 then mp + 3 else mp - 9);
          y = yoe + era * 400 + (if m \<le> 2 then 1 else 0)
      in (y, m, d))"

text \<open>
  \<^verbatim>\<open>toISOString().split('T')[0]\<close>: the calendar date of a time value in UTC, as
  \<^verbatim>\<open>YYYY-MM-DD\<close> (a year outside 0..9999 is printed with a sign and six digits).
\<close>

definition padLeft :: "nat \<Rightarrow> string \<Rightarrow> string" where
  "padLeft n s = replicate (n - length s) CHR ''0'' @ s"

definition isoYear :: "int \<Rightarrow> string" where
  "isoYear y =
     (if 0 \<le> y \<and> y \<le> 9999 then padLeft 4 (showNat (nat y))
      else (if y < 0 then CHR ''-'' else CHR ''+'') # padLeft 6 (showNat (nat \<bar>y\<bar>)))"

definition toISODate :: "int \<Rightarrow> string" where
  "toISODate t =
     (case civil_from_days (t div msPerDay) of
        (y, m, d) \<Rightarrow>
          isoYear y @ ''-'' @ padLeft 2 (showNat (nat m)) @ ''-'' @ padLeft 2 (showNat (nat d)))"

text \<open>
  \<^verbatim>\<open>new Date(s)\<close> for a date-only string \<^verbatim>\<open>YYYY-MM-DD\<close>, the form in which the store
  keeps \<^verbatim>\<open>entry.date\<close>: midnight UTC of that date. The webview runs on V8, which accepts
  a day of 1..31 in every month and lets it run over into the next month. The engine
  also reads other forms of date strings, by rules of its own; they are not modelled, and
  \<open>parseDate\<close> gives \<^const>\<open>None\<close> for them. \<open>isCalendarDate s\<close> says that \<open>s\<close> is a
  calendar date in the store's form: it is read as a date, and printing that date gives
  \<open>s\<close> back. On such strings \<open>parseDate\<close> is what the engine computes; statements about
  all entries are made for entries dated by such strings.
\<close>

definition isDigit :: "char \<Rightarrow> bool" where
  "isDigit c = (CHR ''0'' \<le> c \<and> c \<le> CHR ''9'')"

definition digitVal :: "char \<Rightarrow> int" where
  "digitVal c = int (of_char c) - 48"

definition parseDate :: "string \<Rightarrow> int option" where
  "parseDate s =
     (if length s = 10 \<and> list_all isDigit (map ((!) s) [0, 1, 2, 3, 5, 6, 8, 9]) \<and>
         s ! 4 = CHR ''-'' \<and> s ! 7 = CHR ''-''
      then
        (let y = 1000 * digitVal (s ! 0) + 100 * digitVal (s ! 1) + 10 * digitVal (s ! 2)
                   + digitVal (s ! 3);
             m = 10 * digitVal (s ! 5) + digitVal (s ! 6);
             d = 10 * digitVal (s ! 8) + digitVal (s ! 9)
         in if 1 \<le> m \<and> m \<le> 12 \<and> 1 \<le> d \<and> d \<le> 31
            then Some ((days_from_civil y m 1 + d - 1) * msPerDay)
            else None)
      else None)"

definition isCalendarDate :: "string \<Rightarrow> bool" where
  "isCalendarDate s = (case parseDate s of None \<Rightarrow> False | Some t \<Rightarrow> toISODate t = s)"

text \<open>
  What a call reads from its surroundings: the clock (\<^verbatim>\<open>new Date()\<close>) and the local time
  zone. The zone is the \<open>LocalTZA(t, isUTC)\<close> of ECMAScript: the offset of local time from
  UTC in milliseconds, at the UTC time value \<open>t\<close> when \<open>isUTC\<close> is true and at the local
  time value \<open>t\<close> otherwise, so that a zone with daylight saving is a function that
  changes with \<open>t\<close>. One call reads the same instant every time it asks.
\<close>

record clock =
  nowMs :: int
  localTZA :: "int \<Rightarrow> bool \<Rightarrow> int"

text \<open>A zone whose local time is always the same number of minutes ahead of UTC.\<close>

definition fixedZone :: "int \<Rightarrow> int \<Rightarrow> bool \<Rightarrow> int" where
  "fixedZone minutes t isUTC = minutes * 60000"

text \<open>ECMAScript's \<open>LocalTime(t)\<close> and \<open>UTC(t)\<close>.\<close>

definition LocalTime :: "clock \<Rightarrow> int \<Rightarrow> int" where
  "LocalTime c t = t + localTZA c t True"

definition UTCTime :: "clock \<Rightarrow> int \<Rightarrow> int" where
  "UTCTime c t = t - localTZA c t False"

definition todayStr :: "clock \<Rightarrow> string" where
  "todayStr c = toISODate (nowMs c)"

text \<open>
  The local-time getters and the local-time constructor \<^verbatim>\<open>new Date(year, monthIndex, day)\<close>
  (midnight local time; a month or day out of range runs over, a year 0..99 means
  1900..1999). \<^verbatim>\<open>getDay\<close> is 0 for Sunday; 1970-01-01 was a Thursday. \<open>MakeDay\<close> is
  the day number of a year, a month index and a day of the month that may be out of range.
\<close>

definition localDayNumber :: "clock \<Rightarrow> int \<Rightarrow> int" where
  "localDayNumber c t = LocalTime c t div msPerDay"

definition getFullYear :: "clock \<Rightarrow> int \<Rightarrow> int" where
  "getFullYear c t = (case civil_from_days (localDayNumber c t) of (y, m, d) \<Rightarrow> y)"

definition getMonth :: "clock \<Rightarrow> int \<Rightarrow> int" where
  "getMonth c t = (case civil_from_days (localDayNumber c t) of (y, m, d) \<Rightarrow> m - 1)"

definition getDate :: "clock \<Rightarrow> int \<Rightarrow> int" where
  "getDate c t = (case civil_from_days (localDayNumber c t) of (y, m, d) \<Rightarrow> d)"

definition getDay :: "clock \<Rightarrow> int \<Rightarrow> int" where
  "getDay c t = (localDayNumber c t + 4) mod 7"

definition MakeDay :: "int \<Rightarrow> int \<Rightarrow> int \<Rightarrow> int" where
  "MakeDay year monthIndex day =
     (let ym = year + monthIndex div 12;
          mn = monthIndex mod 12
      in days_from_civil ym (mn + 1) 1 + day - 1)"

definition newDate :: "clock \<Rightarrow> int \<Rightarrow> int \<Rightarrow> int \<Rightarrow> int" where
  "newDate c year monthIndex day =
     (let yr = (if 0 \<le> year \<and> year \<le> 99 then 1900 + year else year)
      in UTCTime c (MakeDay yr monthIndex day * msPerDay))"

text \<open>
  \<^verbatim>\<open>d.setDate(day)\<close>: the local date of \<open>d\<close> gets the day of the month \<open>day\<close>, the local
  time of day stays, and the result is taken back to UTC with the offset in force at
  that local time.
\<close>

definition setDate :: "clock \<Rightarrow> int \<Rightarrow> int \<Rightarrow> int" where
  "setDate c t day =
     (let lt = LocalTime c t
      in case civil_from_days (lt div msPerDay) of
           (y, m, d) \<Rightarrow> UTCTime c (MakeDay y (m - 1) day * msPerDay + lt mod msPerDay))"

text \<open>
  \<^verbatim>\<open>
  const yesterday = new Date();
  yesterday.setDate(yesterday.getDate() - 1);
  const yesterdayStr = yesterday.toISOString().split('T')[0];
  \<close>
  The step back is taken on the local date, and the result is printed in UTC.
\<close>

definition yesterdayStr :: "clock \<Rightarrow> string" where
  "yesterdayStr c =
     (let yesterday = nowMs c
      in toISODate (setDate c yesterday (getDate c yesterday - 1)))"

section \<open>Time entries\<close>

text \<open>The \<^verbatim>\<open>TimeEntry\<close> of database.ts, as summaryView.ts and the webview read it.\<close>

record TimeEntry =
  date :: string
  project :: string
  timeSpent :: real
  branch :: string
  language :: string

section \<open>summaryView.ts: calculateStreaks\<close>

text \<open>
  \<^verbatim>\<open>
  const dailyTotals = {};
  entries.forEach(entry => {
      dailyTotals[entry.date] = (dailyTotals[entry.date] || 0) + entry.timeSpent;
  });
  const dates = Object.keys(dailyTotals).sort();
  \<close>
  The object is an association list of its own properties in insertion order. A value is
  a number, or the text that \<^verbatim>\<open>+\<close> makes when its left operand is not a number. A key
  is added whatever its total is. Two kinds of key behave differently on a plain object:
  for a key that names a member inherited from \<^verbatim>\<open>Object.prototype\<close> the first read
  finds that member, which is truthy, and the sum is a text; and the assignment to
  \<^verbatim>\<open>__proto__\<close> with a value that is not an object creates no property at all.
\<close>

datatype dailyTotal = Num real | Text

definition addDaily ::
  "(string \<times> dailyTotal) list \<Rightarrow> TimeEntry \<Rightarrow> (string \<times> dailyTotal) list" where
  "addDaily dailyTotals entry =
     (let v = (case map_of dailyTotals (date entry) of
                 Some (Num x) \<Rightarrow> Num ((if x = 0 then 0 else x) + timeSpent entry)
               | Some Text \<Rightarrow> Text
               | None \<Rightarrow> if date entry \<in> set objectPrototypeKeys then Text
                         else Num (0 + timeSpent entry))
      in if date entry = ''__proto__'' then dailyTotals
         else AList.update (date entry) v dailyTotals)"

definition dailyTotalsOf :: "TimeEntry list \<Rightarrow> (string \<times> dailyTotal) list" where
  "dailyTotalsOf entries = foldl addDaily [] entries"

text \<open>
  \<^verbatim>\<open>Math.round((currentDate - prevDate) / (1000 * 60 * 60 * 24))\<close>; \<^const>\<open>None\<close> is NaN,
  the result when either date is invalid.
\<close>

definition diffDays :: "string \<Rightarrow> string \<Rightarrow> int option" where
  "diffDays prevDate currentDate =
     (case (parseDate currentDate, parseDate prevDate) of
        (Some c, Some p) \<Rightarrow> Some (Math_round (real_of_int (c - p) / (1000 * 60 * 60 * 24)))
      | _ \<Rightarrow> None)"

text \<open>
  The body of the \<^verbatim>\<open>for\<close> loop, for the date \<open>d\<close> at index \<open>i\<close>; \<open>prev\<close> is
  \<^verbatim>\<open>dates[i-1]\<close>, or \<^const>\<open>None\<close> at index 0.
  \<^verbatim>\<open>
  const diffDays = prevDate ? Math.round(...) : 1;
  if (diffDays === 1) { tempStreak++; } else { tempStreak = 1; }
  longestStreak = Math.max(longestStreak, tempStreak);
  if (dates[i] === today || dates[i] === yesterdayStr) {
      if (dates[i] === yesterdayStr) yesterdayHasCoding = true;
      currentStreak = tempStreak;
  }
  \<close>
\<close>

record streakState =
  longestStreak :: nat
  currentStreak :: nat
  tempStreak :: nat
  yesterdayHasCoding :: bool

definition streakStep ::
  "string \<Rightarrow> string \<Rightarrow> string option \<Rightarrow> string \<Rightarrow> streakState \<Rightarrow> streakState" where
  "streakStep today yest prev d s =
     (let diff = (case prev of None \<Rightarrow> Some 1 | Some p \<Rightarrow> diffDays p d);
          temp = (if diff = Some 1 then tempStreak s + 1 else 1);
          s1 = s\<lparr>tempStreak := temp, longestStreak := max (longestStreak s) temp\<rparr>
      in if d = today \<or> d = yest
         then s1\<lparr>yesterdayHasCoding := (if d = yest then True else yesterdayHasCoding s1),
                 currentStreak := temp\<rparr>
         else s1)"

fun streakLoop ::
  "string \<Rightarrow> string \<Rightarrow> string option \<Rightarrow> string list \<Rightarrow> streakState \<Rightarrow> streakState" where
  "streakLoop today yest prev [] s = s"
| "streakLoop today yest prev (d # ds) s =
     streakLoop today yest (Some d) ds (streakStep today yest prev d s)"

text \<open>
  The loop variables before the first iteration:
  \<^verbatim>\<open>let longestStreak = 0; let currentStreak = 0; let tempStreak = 0; let yesterdayHasCoding = false;\<close>
\<close>

definition streakInit :: streakState where
  "streakInit = \<lparr>longestStreak = 0, currentStreak = 0, tempStreak = 0, yesterdayHasCoding = False\<rparr>"

record streaks =
  longest :: nat
  current :: nat

definition calculateStreaks :: "clock \<Rightarrow> TimeEntry list \<Rightarrow> streaks" where
  "calculateStreaks c entries =
     (if length entries = 0 then \<lparr>longest = 0, current = 0\<rparr>
      else
        (let dailyTotals = dailyTotalsOf entries;
             dates = sort (map fst dailyTotals);
             today = todayStr c;
             s = streakLoop today (yesterdayStr c) None dates streakInit;
             cur = (if today \<notin> set dates \<and> \<not> yesterdayHasCoding s then 0
                    else currentStreak s)
         in \<lparr>longest = longestStreak s, current = cur\<rparr>))"

section \<open>summaryView.ts: the rollup totals\<close>

text \<open>
  \<^verbatim>\<open>
  function getTodayTime(entries) {
      const today = new Date().toISOString().split('T')[0];
      return entries.filter(entry => entry.date === today)
                    .reduce((sum, entry) => sum + entry.timeSpent, 0);
  }
  function getThisWeekTime(entries) {
      const now = new Date();
      const startOfWeek = new Date(now.getFullYear(), now.getMonth(), now.getDate() - now.getDay());
      const startOfWeekStr = startOfWeek.toISOString().split('T')[0];
      const today = now.toISOString().split('T')[0];
      return entries.filter(entry => entry.date >= startOfWeekStr && entry.date <= today)
                    .reduce((sum, entry) => sum + entry.timeSpent, 0);
  }
  \<close>
  \<^verbatim>\<open>getThisMonthTime\<close> and \<^verbatim>\<open>getThisYearTime\<close> are the same with
  \<^verbatim>\<open>new Date(now.getFullYear(), now.getMonth(), 1)\<close> and
  \<^verbatim>\<open>new Date(now.getFullYear(), 0, 1)\<close> as the start.
\<close>

definition sumTime :: "TimeEntry list \<Rightarrow> real" where
  "sumTime entries = foldl (\<lambda>sum entry. sum + timeSpent entry) 0 entries"

definition getTodayTime :: "clock \<Rightarrow> TimeEntry list \<Rightarrow> real" where
  "getTodayTime c entries =
     (let today = toISODate (nowMs c)
      in sumTime (filter (\<lambda>entry. date entry = today) entries))"

definition startOfWeekStr :: "clock \<Rightarrow> string" where
  "startOfWeekStr c =
     (let now = nowMs c;
          startOfWeek = newDate c (getFullYear c now) (getMonth c now) (getDate c now - getDay c now)
      in toISODate startOfWeek)"

definition getThisWeekTime :: "clock \<Rightarrow> TimeEntry list \<Rightarrow> real" where
  "getThisWeekTime c entries =
     (let today = toISODate (nowMs c)
      in sumTime (filter (\<lambda>entry. date entry \<ge> startOfWeekStr c \<and> date entry \<le> today) entries))"

definition startOfMonthStr :: "clock \<Rightarrow> string" where
  "startOfMonthStr c =
     (let now = nowMs c;
          startOfMonth = newDate c (getFullYear c now) (getMonth c now) 1
      in toISODate startOfMonth)"

definition getThisMonthTime :: "clock \<Rightarrow> TimeEntry list \<Rightarrow> real" where
  "getThisMonthTime c entries =
     (let today = toISODate (nowMs c)
      in sumTime (filter (\<lambda>entry. date entry \<ge> startOfMonthStr c \<and> date entry \<le> today) entries))"

definition startOfYearStr :: "clock \<Rightarrow> string" where
  "startOfYearStr c =
     (let now = nowMs c;
          startOfYear = newDate c (getFullYear c now) 0 1
      in toISODate startOfYear)"

definition getThisYearTime :: "clock \<Rightarrow> TimeEntry list \<Rightarrow> real" where
  "getThisYearTime c entries =
     (let today = toISODate (nowMs c)
      in sumTime (filter (\<lambda>entry. date entry \<ge> startOfYearStr c \<and> date entry \<le> today) entries))"


section \<open>summaryView.ts: calculateDayOfWeekStats\<close>

text \<open>
  \<^verbatim>\<open>
  const dayTotals = [0, 0, 0, 0, 0, 0, 0]; // Sun to Sat
  const dayCounts = [0, 0, 0, 0, 0, 0, 0];
  entries.forEach(entry => {
      const date = new Date(entry.date);
      const dayOfWeek = date.getDay();
      dayTotals[dayOfWeek] += entry.timeSpent;
      dayCounts[dayOfWeek]++;
  });
  const dayAverages = dayTotals.map((total, index) =>
      dayCounts[index] > 0 ? total / dayCounts[index] : 0);
  const maxAvgIndex = dayAverages.indexOf(Math.max(...dayAverages));
  \<close>
  For an invalid date \<^verbatim>\<open>getDay()\<close> is NaN, and the two updates leave the seven array
  elements as they are. The returned object is flattened into one record.
\<close>

record dayOfWeekStats =
  days :: "real list"
  mostProductive_name :: string
  mostProductive_avgTime :: real
  mostProductive_index :: int

definition entryDayOfWeek :: "clock \<Rightarrow> TimeEntry \<Rightarrow> nat option" where
  "entryDayOfWeek c entry = map_option (\<lambda>t. nat (getDay c t)) (parseDate (date entry))"

definition addDayOfWeek ::
  "clock \<Rightarrow> real list \<times> nat list \<Rightarrow> TimeEntry \<Rightarrow> real list \<times> nat list" where
  "addDayOfWeek c acc entry =
     (case acc of (dayTotals, dayCounts) \<Rightarrow>
        (case entryDayOfWeek c entry of
           None \<Rightarrow> (dayTotals, dayCounts)
         | Some dayOfWeek \<Rightarrow>
             (dayTotals[dayOfWeek := dayTotals ! dayOfWeek + timeSpent entry],
              dayCounts[dayOfWeek := dayCounts ! dayOfWeek + 1])))"

definition Math_max :: "real list \<Rightarrow> real" where
  "Math_max xs = fold max (tl xs) (hd xs)"

definition indexOf :: "real list \<Rightarrow> real \<Rightarrow> int" where
  "indexOf xs v = (if v \<in> set xs then int (length (takeWhile (\<lambda>x. x \<noteq> v) xs)) else - 1)"

definition dayNames :: "string list" where
  "dayNames = [''Sunday'', ''Monday'', ''Tuesday'', ''Wednesday'', ''Thursday'', ''Friday'', ''Saturday'']"

definition calculateDayOfWeekStats :: "clock \<Rightarrow> TimeEntry list \<Rightarrow> dayOfWeekStats" where
  "calculateDayOfWeekStats c entries =
     (case foldl (addDayOfWeek c) ([0, 0, 0, 0, 0, 0, 0], [0, 0, 0, 0, 0, 0, 0]) entries of
        (dayTotals, dayCounts) \<Rightarrow>
          (let dayAverages = map (\<lambda>index. if dayCounts ! index > 0
                                         then dayTotals ! index / real (dayCounts ! index) else 0)
                               [0..<length dayTotals];
               maxAvgIndex = indexOf dayAverages (Math_max dayAverages)
           in \<lparr>days = dayAverages,
               mostProductive_name = dayNames ! nat maxAvgIndex,
               mostProductive_avgTime = dayAverages ! nat maxAvgIndex,
               mostProductive_index = maxAvgIndex\<rparr>))"

section \<open>The persisted store (database.ts)\<close>

text \<open>
  Modelled from the spec: database.ts is not among the sources, so the entry key of the
  persisted store is taken from the specification's data model: "Natural key = (date,
  project, branch, language)", where branch and language may be null.
\<close>

record entryKey =
  keyDate :: string
  keyProject :: string
  keyBranch :: "string option"
  keyLanguage :: "string option"

text \<open>
  Modelled from the spec: the persisted rows of database.ts, one per key with its
  \<^verbatim>\<open>timeSpentMinutes\<close>, in the order in which they were first written.
\<close>

type_synonym store = "(entryKey \<times> real) list"

text \<open>
  Modelled from the spec: \<^verbatim>\<open>mergeEntry(key, deltaMinutes)\<close> of the store, which is
  missing from the sources: "multiple flushes on the same key accumulate additively";
  a key that has no row yet gets one.
\<close>

definition mergeEntry :: "store \<Rightarrow> entryKey \<Rightarrow> real \<Rightarrow> store" where
  "mergeEntry st k deltaMinutes =
     AList.update k ((case map_of st k of None \<Rightarrow> 0 | Some m \<Rightarrow> m) + deltaMinutes) st"

text \<open>
  Modelled from the spec: the "sum of all TimeEntry.timeSpentMinutes for a date" over the
  rows of the store.
\<close>

definition dateTotal :: "store \<Rightarrow> string \<Rightarrow> real" where
  "dateTotal st d = sum_list (map snd (filter (\<lambda>row. keyDate (fst row) = d) st))"

datatype commitOutcome = Committed | Rejected

text \<open>
  Modelled from the spec: the commit of a delta by the flush of timeTracker.ts, which is
  missing from the sources. "Values outside [0, 1440] are rejected, not silently
  clamped"; "Sum of all TimeEntry.timeSpentMinutes for a date never exceeds 1440;
  attempts to commit more are rejected"; otherwise "commit is additive-merge into the
  store". A rejected commit returns the store it was given.
\<close>

definition commitDelta :: "store \<Rightarrow> entryKey \<Rightarrow> real \<Rightarrow> commitOutcome \<times> store" where
  "commitDelta st k deltaMinutes =
     (if deltaMinutes < 0 \<or> 1440 < deltaMinutes then (Rejected, st)
      else if 1440 < dateTotal st (keyDate k) + deltaMinutes then (Rejected, st)
      else (Committed, mergeEntry st k deltaMinutes))"

text \<open>
  Modelled from the spec: a sequence of flushes, each committing one delta under its key,
  and the special case of flushing several deltas under one key.
\<close>

definition flushAll :: "store \<Rightarrow> (entryKey \<times> real) list \<Rightarrow> store" where
  "flushAll st commits = foldl (\<lambda>s c. snd (commitDelta s (fst c) (snd c))) st commits"

definition flushKey :: "store \<Rightarrow> entryKey \<Rightarrow> real list \<Rightarrow> store" where
  "flushKey st k deltas = flushAll st (map (Pair k) deltas)"

text \<open>The rows of the store that carry a given key.\<close>

definition entriesFor :: "store \<Rightarrow> entryKey \<Rightarrow> store" where
  "entriesFor st k = filter (\<lambda>row. fst row = k) st"

section \<open>The session state machine (timeTracker.ts)\<close>

text \<open>
  Modelled from the spec: timeTracker.ts is not among the sources. The signals, the
  session and its two states are those of the specification's data model; times are
  milliseconds, and the two timeouts are the configured \<^verbatim>\<open>inactivityTimeout\<close> and
  \<^verbatim>\<open>focusTimeout\<close> in milliseconds.
\<close>

datatype signalKind = Edit | Cursor | FocusGained | FocusLost

datatype sessionState = Active | Paused

record config =
  inactivityTimeout :: int
  focusTimeout :: int

record session =
  state :: sessionState
  lastActivityAt :: int
  lastFocusLostAt :: "int option"

text \<open>
  Modelled from the spec: \<^verbatim>\<open>recordActivity(signal)\<close> of timeTracker.ts: it "stamps
  lastActivityAt (for edit/cursor) or toggles focus bookkeeping (for focus-gained/lost)";
  "Paused -> Active: any activity signal arrives (edit, cursor, or focus-gained followed
  by activity)".
\<close>

definition recordActivity :: "session \<Rightarrow> signalKind \<Rightarrow> int \<Rightarrow> session" where
  "recordActivity s kind t =
     (case kind of
        Edit \<Rightarrow> s\<lparr>lastActivityAt := t, state := Active\<rparr>
      | Cursor \<Rightarrow> s\<lparr>lastActivityAt := t, state := Active\<rparr>
      | FocusGained \<Rightarrow> s\<lparr>lastFocusLostAt := None\<rparr>
      | FocusLost \<Rightarrow> s\<lparr>lastFocusLostAt := Some t\<rparr>)"

text \<open>
  Modelled from the spec: the timeout check of timeTracker.ts at a scheduler tick.
  "Active -> Paused: no activity signal received for inactivityTimeout while the editor
  is focused", with the boundary as in the specification's scenario (still Active at
  exactly the timeout, Paused just after); "Active -> Paused: focus lost and focusTimeout
  elapses with no subsequent focus-gained signal"; "re-entering Paused is a no-op".
\<close>

definition tick :: "config \<Rightarrow> session \<Rightarrow> int \<Rightarrow> session" where
  "tick cfg s now =
     (if state s = Active \<and>
         ((lastFocusLostAt s = None \<and> inactivityTimeout cfg < now - lastActivityAt s) \<or>
          (case lastFocusLostAt s of None \<Rightarrow> False | Some f \<Rightarrow> focusTimeout cfg \<le> now - f))
      then s\<lparr>state := Paused\<rparr>
      else s)"

text \<open>
  Modelled from the spec: the single queue of section 5, from which activity signals and
  scheduler ticks are processed one at a time.
\<close>

datatype event = Signal signalKind int | Tick int

fun step :: "config \<Rightarrow> session \<Rightarrow> event \<Rightarrow> session" where
  "step cfg s (Signal kind t) = recordActivity s kind t"
| "step cfg s (Tick t) = tick cfg s t"

definition run :: "config \<Rightarrow> session \<Rightarrow> event list \<Rightarrow> session" where
  "run cfg s evs = foldl (step cfg) s evs"

text \<open>
  A sequence of activity signals spaced less than \<open>timeout\<close> apart while the editor is
  focused: every signal is an edit or a cursor move, not earlier than the activity before
  it (at \<open>lastAt\<close>) and less than \<open>timeout\<close> after it. Ticks may fall anywhere between two
  signals of the sequence: a tick is not earlier than the activity before it and not later
  than the next signal.
\<close>

fun nextSignalAt :: "event list \<Rightarrow> int option" where
  "nextSignalAt [] = None"
| "nextSignalAt (Signal kind t # evs) = Some t"
| "nextSignalAt (Tick t # evs) = nextSignalAt evs"

fun spacedActivity :: "int \<Rightarrow> int \<Rightarrow> event list \<Rightarrow> bool" where
  "spacedActivity timeout lastAt [] = True"
| "spacedActivity timeout lastAt (Signal kind t # evs) =
     ((kind = Edit \<or> kind = Cursor) \<and> lastAt \<le> t \<and> t - lastAt < timeout \<and>
      spacedActivity timeout t evs)"
| "spacedActivity timeout lastAt (Tick t # evs) =
     (lastAt \<le> t \<and> (case nextSignalAt evs of None \<Rightarrow> False | Some t' \<Rightarrow> t \<le> t') \<and>
      spacedActivity timeout lastAt evs)"

section \<open>Streaks, in the words of the specification\<close>

text \<open>
  The specification speaks of runs of consecutive calendar dates. The day number of a date
  string is its number of days since 1970-01-01; two dates are consecutive when the
  second is exactly one day after the first. The tracked dates are the dates that have at
  least one entry, in ascending order. \<open>runAt ds i n\<close> says that the \<open>n\<close> dates of \<open>ds\<close>
  from index \<open>i\<close> on form a run: each is one day after the one before it.
\<close>

definition dayNumber :: "string \<Rightarrow> int option" where
  "dayNumber s = map_option (\<lambda>t. t div msPerDay) (parseDate s)"

definition oneDayApart :: "string \<Rightarrow> string \<Rightarrow> bool" where
  "oneDayApart a b = (case (dayNumber a, dayNumber b) of (Some x, Some y) \<Rightarrow> y = x + 1 | _ \<Rightarrow> False)"

definition trackedDates :: "TimeEntry list \<Rightarrow> string list" where
  "trackedDates entries = sorted_list_of_set (date ` set entries)"

definition runAt :: "string list \<Rightarrow> nat \<Rightarrow> nat \<Rightarrow> bool" where
  "runAt ds i n = (i + n \<le> length ds \<and> successively oneDayApart (take n (drop i ds)))"

text \<open>
  Auxiliary, for the proofs: the length of the run that ends at the head of a list of
  dates given latest first, and the new value of \<^verbatim>\<open>tempStreak\<close> in one iteration.
\<close>

fun runLen :: "string list \<Rightarrow> nat" where
  "runLen [] = 0"
| "runLen [x] = 1"
| "runLen (x # y # zs) = (if oneDayApart y x then Suc (runLen (y # zs)) else 1)"

definition stepTemp :: "string option \<Rightarrow> string \<Rightarrow> nat \<Rightarrow> nat" where
  "stepTemp p d n = (if (case p of None \<Rightarrow> Some 1 | Some q \<Rightarrow> diffDays q d) = Some 1 then n + 1 else 1)"

text \<open>The weekday of a calendar date, 0 for Sunday.\<close>

definition calendarWeekday :: "string \<Rightarrow> int option" where
  "calendarWeekday d = map_option (\<lambda>n. (n + 4) mod 7) (dayNumber d)"

text \<open>The entries that \<^const>\<open>calculateDayOfWeekStats\<close> puts under weekday \<open>i\<close>.\<close>

definition entriesOn :: "clock \<Rightarrow> TimeEntry list \<Rightarrow> nat \<Rightarrow> TimeEntry list" where
  "entriesOn c entries i = filter (\<lambda>entry. entryDayOfWeek c entry = Some i) entries"

text \<open>The total of the entries dated within a closed interval of dates.\<close>

definition totalBetween :: "string \<Rightarrow> string \<Rightarrow> TimeEntry list \<Rightarrow> real" where
  "totalBetween periodStart today entries =
     sum_list (map timeSpent (filter (\<lambda>entry. periodStart \<le> date entry \<and> date entry \<le> today) entries))"

section \<open>Example inputs\<close>

definition example_entries :: "TimeEntry list" where
  "example_entries =
     [\<lparr>date = ''2024-01-05'', project = ''app'', timeSpent = 20, branch = ''main'', language = ''Go''\<rparr>,
      \<lparr>date = ''2024-01-01'', project = ''app'', timeSpent = 45, branch = ''main'', language = ''Go''\<rparr>,
      \<lparr>date = ''2024-01-03'', project = ''app'', timeSpent = 5 / 2, branch = ''dev'', language = ''Go''\<rparr>,
      \<lparr>date = ''2024-01-02'', project = ''app'', timeSpent = 90, branch = ''main'', language = ''C''\<rparr>,
      \<lparr>date = ''2024-01-03'', project = ''lib'', timeSpent = 30, branch = ''main'', language = ''Go''\<rparr>]"

definition example_clock :: clock where
  "example_clock = \<lparr>nowMs = 1704456000000, localTZA = fixedZone 0\<rparr>"

definition zero_day_entries :: "TimeEntry list" where
  "zero_day_entries =
     [\<lparr>date = ''2024-01-04'', project = ''app'', timeSpent = 30, branch = ''main'', language = ''Go''\<rparr>,
      \<lparr>date = ''2024-01-05'', project = ''app'', timeSpent = 0, branch = ''main'', language = ''Go''\<rparr>]"

definition future_entries :: "TimeEntry list" where
  "future_entries =
     [\<lparr>date = ''2024-01-05'', project = ''app'', timeSpent = 30, branch = ''main'', language = ''Go''\<rparr>,
      \<lparr>date = ''2024-01-06'', project = ''app'', timeSpent = 30, branch = ''main'', language = ''Go''\<rparr>]"

definition example_entries_zeroed :: "TimeEntry list" where
  "example_entries_zeroed = map (\<lambda>e. e\<lparr>timeSpent := 0\<rparr>) example_entries"

text \<open>
  The instant 2024-01-10T11:00:00Z, a Wednesday, read in Berlin (UTC+1 in January), in
  New York (UTC-5 in January) and in UTC.
\<close>

definition clock_utc :: clock where
  "clock_utc = \<lparr>nowMs = 1704884400000, localTZA = fixedZone 0\<rparr>"

definition clock_berlin :: clock where
  "clock_berlin = \<lparr>nowMs = 1704884400000, localTZA = fixedZone 60\<rparr>"

definition clock_new_york :: clock where
  "clock_new_york = \<lparr>nowMs = 1704884400000, localTZA = fixedZone (- 300)\<rparr>"

text \<open>
  New York around the end of daylight saving time on 2024-11-03, when the clocks went
  from 02:00 local time (06:00 UTC) back to 01:00: four hours behind UTC before, five
  after; a local time that occurs twice is read with the earlier offset. The clock reads
  2024-11-04T00:30:00Z, which is 19:30 on Sunday 2024-11-03 in New York.
\<close>

definition newYorkAutumn2024 :: "int \<Rightarrow> bool \<Rightarrow> int" where
  "newYorkAutumn2024 t isUTC =
     (if isUTC then (if t < 1730613600000 then - 14400000 else - 18000000)
      else (if t < 1730599200000 then - 14400000 else - 18000000))"

definition clock_new_york_autumn :: clock where
  "clock_new_york_autumn = \<lparr>nowMs = 1730680200000, localTZA = newYorkAutumn2024\<rparr>"

definition autumn_entry :: "string \<Rightarrow> TimeEntry" where
  "autumn_entry d =
     \<lparr>date = d, project = ''app'', timeSpent = 30, branch = ''main'', language = ''Go''\<rparr>"

definition rollup_entries :: "TimeEntry list" where
  "rollup_entries =
     [\<lparr>date = ''2024-01-06'', project = ''app'', timeSpent = 30, branch = ''main'', language = ''Go''\<rparr>,
      \<lparr>date = ''2023-12-31'', project = ''app'', timeSpent = 20, branch = ''main'', language = ''Go''\<rparr>]"

definition monday_entries :: "TimeEntry list" where
  "monday_entries =
     [\<lparr>date = ''2024-01-08'', project = ''app'', timeSpent = 60, branch = ''main'', language = ''Go''\<rparr>]"

definition example_key :: entryKey where
  "example_key = \<lparr>keyDate = ''2024-01-05'', keyProject = ''app'', keyBranch = Some ''main'',
                  keyLanguage = Some ''Go''\<rparr>"

definition example_config :: config where
  "example_config = \<lparr>inactivityTimeout = 150000, focusTimeout = 180000\<rparr>"

definition example_session :: session where
  "example_session = \<lparr>state = Active, lastActivityAt = 0, lastFocusLostAt = None\<rparr>"

definition example_events :: "event list" where
  "example_events =
     [Tick 5000, Signal Edit 100000, Tick 105000, Tick 240000, Signal Cursor 249999]"

section \<open>Properties of formatTime\<close>

text \<open>
  Claim C9. \<^const>\<open>formatTime\<close> does not always give a normalised pair of hours and
  minutes: the minutes remainder is rounded on its own, after the hours were floored, so
  a nonnegative input can be rendered with a minutes component of 60. At 59.5 minutes the
  floored hours are 0, the rounded minutes are 60, and the text is "0h 60m", not "1h 0m".
\<close>

theorem formatTime_unnormalised:
  "formatTime (119 / 2) = ''0h 60m'' \<and> formatTime (119 / 2) \<noteq> ''1h 0m'' \<and>
   formatTime_hours (119 / 2) = 0 \<and> formatTime_mins (119 / 2) = 60 \<and>
   (\<exists>m::real. 0 \<le> m \<and> formatTime_mins m = 60)"
proof -
  have h: "formatTime_hours (119 / 2) = 0"
    by (simp add: formatTime_hours_def)
  have m: "formatTime_mins (119 / 2) = 60"
    by (simp add: formatTime_mins_def Math_round_def js_rem_def)
  have s: "formatTime (119 / 2) = ''0h 60m''"
    by (simp add: formatTime_def h m showInt_def showNat.simps digitChar_def)
  have "(0::real) \<le> 119 / 2 \<and> formatTime_mins (119 / 2) = 60"
    using m by simp
  then have "\<exists>m::real. 0 \<le> m \<and> formatTime_mins m = 60"
    by blast
  with h m s show ?thesis
    by simp
qed

section \<open>Properties of getIntensityLevel\<close>

text \<open>
  Claim C3. The intensity level is a step function of the minutes of a day: 0 minutes
  give level 0, minutes in the open interval (0, 60) give level 1, minutes in [60, 180)
  give level 2, minutes in [180, 360) give level 3, and minutes from 360 on give level 4.
\<close>

theorem getIntensityLevel_steps:
  "getIntensityLevel 0 = 0 \<and>
   (\<forall>m. 0 < m \<and> m < 60 \<longrightarrow> getIntensityLevel m = 1) \<and>
   (\<forall>m. 60 \<le> m \<and> m < 180 \<longrightarrow> getIntensityLevel m = 2) \<and>
   (\<forall>m. 180 \<le> m \<and> m < 360 \<longrightarrow> getIntensityLevel m = 3) \<and>
   (\<forall>m. 360 \<le> m \<longrightarrow> getIntensityLevel m = 4)"
  by (simp add: getIntensityLevel_def)

theorem getIntensityLevel_steps_witness:
  "getIntensityLevel 0 = 0 \<and>
   ((0::real) < 59 \<and> (59::real) < 60 \<and> getIntensityLevel 59 = 1) \<and>
   ((60::real) \<le> 60 \<and> (60::real) < 180 \<and> getIntensityLevel 60 = 2) \<and>
   ((180::real) \<le> 180 \<and> (180::real) < 360 \<and> getIntensityLevel 180 = 3) \<and>
   ((360::real) \<le> 360 \<and> getIntensityLevel 360 = 4)"
proof -
  note t = getIntensityLevel_steps
  have a: "getIntensityLevel 0 = 0" using t by blast
  have b: "getIntensityLevel 59 = 1" using t by simp
  have c: "getIntensityLevel 60 = 2" using t by simp
  have d: "getIntensityLevel 180 = 3" using t by simp
  have e: "getIntensityLevel 360 = 4" using t by simp
  from a b c d e show ?thesis by simp
qed

section \<open>Properties of calculateStreaks\<close>

lemma keys_update: "set (map fst (AList.update k v m)) = insert k (set (map fst m))"
  by (auto simp: update_keys)

lemma keys_addDaily:
  "set (map fst (addDaily m e)) =
     (if date e = ''__proto__'' then set (map fst m) else insert (date e) (set (map fst m)))"
proof (cases "date e = ''__proto__''")
  case True
  then show ?thesis by (simp add: addDaily_def Let_def)
next
  case False
  then show ?thesis by (simp only: addDaily_def Let_def if_False keys_update)
qed
lemma distinct_addDaily: "distinct (map fst m) \<Longrightarrow> distinct (map fst (addDaily m e))"
proof (cases "date e = ''__proto__''")
  case True
  assume "distinct (map fst m)"
  with True show ?thesis by (simp add: addDaily_def Let_def)
next
  case False
  assume "distinct (map fst m)"
  with False show ?thesis by (simp only: addDaily_def Let_def if_False distinct_update)
qed

lemma foldl_addDaily:
  "distinct (map fst m) \<Longrightarrow>
   distinct (map fst (foldl addDaily m es)) \<and>
   set (map fst (foldl addDaily m es)) = set (map fst m) \<union> (date ` set es - {''__proto__''})"
proof (induction es arbitrary: m)
  case Nil
  then show ?case by simp
next
  case (Cons e es)
  have d: "distinct (map fst (addDaily m e))"
    using Cons.prems by (rule distinct_addDaily)
  have k: "set (map fst (addDaily m e)) \<union> (date ` set es - {''__proto__''})
             = set (map fst m) \<union> (date ` set (e # es) - {''__proto__''})"
    unfolding keys_addDaily by (cases "date e = ''__proto__''") auto
  from Cons.IH [OF d] show ?case
    unfolding k by simp
qed

text \<open>
  The dates the loop walks over: every date that has an entry, once, in ascending order
  (but for the key \<^verbatim>\<open>__proto__\<close>).
\<close>

lemma dates_sorted_list:
  "sort (map fst (dailyTotalsOf es)) = sorted_list_of_set (date ` set es - {''__proto__''})"
proof -
  define ks where "ks = map fst (dailyTotalsOf es)"
  have d: "distinct ks" and st: "set ks = date ` set es - {''__proto__''}"
    using foldl_addDaily [of "[]" es] by (simp_all add: dailyTotalsOf_def ks_def)
  have "sort ks = sort (remdups ks)"
    using d by (simp only: distinct_remdups_id)
  also have "\<dots> = sorted_list_of_set (set ks)"
    by (simp only: sorted_list_of_set_sort_remdups)
  finally show ?thesis
    unfolding st unfolding ks_def .
qed

lemma calendarDate_not_proto: "isCalendarDate s \<Longrightarrow> s \<noteq> ''__proto__''"
proof
  assume "isCalendarDate s" "s = ''__proto__''"
  then have "isCalendarDate ''__proto__''" by simp
  moreover have "\<not> isCalendarDate ''__proto__''" by code_simp
  ultimately show False by simp
qed

lemma diff_absent: "x \<notin> A \<Longrightarrow> A - {x} = A"
  by blast

lemma dates_sorted_list_calendar:
  assumes "\<forall>e\<in>set es. isCalendarDate (date e)"
  shows "sort (map fst (dailyTotalsOf es)) = sorted_list_of_set (date ` set es)"
proof -
  have "''__proto__'' \<notin> date ` set es"
  proof
    assume "''__proto__'' \<in> date ` set es"
    then obtain e where e: "''__proto__'' = date e" "e \<in> set es"
      by (rule imageE)
    from assms e(2) have "isCalendarDate (date e)" by (rule bspec)
    then have n: "date e \<noteq> ''__proto__''" by (rule calendarDate_not_proto)
    from e(1) have "date e = ''__proto__''" by (rule sym)
    with n show False by (rule notE)
  qed
  then have "date ` set es - {''__proto__''} = date ` set es"
    by (rule diff_absent)
  then show ?thesis by (simp only: dates_sorted_list)
qed

lemma streakLoop_snoc:
  "streakLoop t y p (ds @ [d]) s =
     streakStep t y (if ds = [] then p else Some (last ds)) d (streakLoop t y p ds s)"
  by (induction ds arbitrary: p s) auto

lemma streakStep_today:
  "currentStreak (streakStep t y p t s) =
     (if (case p of None \<Rightarrow> Some 1 | Some q \<Rightarrow> diffDays q t) = Some 1
      then tempStreak s + 1 else 1)"
  by (simp add: streakStep_def Let_def)

lemma diffDays_example:
  "diffDays ''2024-01-01'' ''2024-01-02'' = Some 1"
  "diffDays ''2024-01-02'' ''2024-01-03'' = Some 1"
  "diffDays ''2024-01-03'' ''2024-01-05'' = Some 2"
  by code_simp+

lemma sorted_example:
  "sorted_list_of_set {''2024-01-01'', ''2024-01-02'', ''2024-01-03'', ''2024-01-05''}
   = [''2024-01-01'', ''2024-01-02'', ''2024-01-03'', ''2024-01-05'']"
  by simp

text \<open>
  Claim C1. The worked example: when the entries lie on the dates 2024-01-01, 2024-01-02,
  2024-01-03 and 2024-01-05 and on no other date, \<^const>\<open>calculateStreaks\<close> returns a
  longest streak of 3, and when today is 2024-01-05 it returns a current streak of 1.
  This holds for every such list of entries, in any order and with any number of entries
  per date, and at any clock reading.
\<close>

theorem calculateStreaks_example:
  assumes "date ` set entries = {''2024-01-01'', ''2024-01-02'', ''2024-01-03'', ''2024-01-05''}"
  shows "longest (calculateStreaks c entries) = 3 \<and>
         (todayStr c = ''2024-01-05'' \<longrightarrow> current (calculateStreaks c entries) = 1)"
proof -
  have ne: "entries \<noteq> []"
  proof
    assume "entries = []"
    then have "date ` set entries = {}" by simp
    with assms show False by (metis insert_not_empty)
  qed
  have ds: "sort (map fst (dailyTotalsOf entries)) =
            [''2024-01-01'', ''2024-01-02'', ''2024-01-03'', ''2024-01-05'']"
  proof -
    have "''__proto__'' \<notin> date ` set entries"
      unfolding assms by simp
    then have "date ` set entries - {''__proto__''} = date ` set entries"
      by (rule diff_absent)
    then show ?thesis
      by (simp only: dates_sorted_list assms sorted_example)
  qed
  have l: "longest (calculateStreaks c entries) = 3"
    using ne by (simp add: calculateStreaks_def ds Let_def streakStep_def streakInit_def diffDays_example)
  have "current (calculateStreaks c entries) = 1" if "todayStr c = ''2024-01-05''"
  proof -
    have "[''2024-01-01'', ''2024-01-02'', ''2024-01-03'', ''2024-01-05''] =
          [''2024-01-01'', ''2024-01-02'', ''2024-01-03''] @ [todayStr c]"
      using that by simp
    then show ?thesis
      using ne that
      by (simp only: calculateStreaks_def ds Let_def streakLoop_snoc streakStep_today)
         (simp add: diffDays_example)
  qed
  with l show ?thesis by simp
qed

theorem calculateStreaks_example_witness:
  "date ` set example_entries = {''2024-01-01'', ''2024-01-02'', ''2024-01-03'', ''2024-01-05''} \<and>
   todayStr example_clock = ''2024-01-05'' \<and>
   longest (calculateStreaks example_clock example_entries) = 3 \<and>
   current (calculateStreaks example_clock example_entries) = 1"
proof -
  have d: "date ` set example_entries =
           {''2024-01-01'', ''2024-01-02'', ''2024-01-03'', ''2024-01-05''}"
    by (auto simp: example_entries_def)
  have t: "todayStr example_clock = ''2024-01-05''"
    by code_simp
  from calculateStreaks_example [OF d, of example_clock] d t show ?thesis
    by simp
qed

subsection \<open>The loop computes run lengths\<close>

lemma parseDate_multiple: "parseDate s = Some t \<Longrightarrow> \<exists>k. t = k * msPerDay"
  by (auto simp: parseDate_def Let_def split: if_splits)

lemma Math_round_days: "Math_round (real_of_int (k * 86400000) / (1000 * 60 * 60 * 24)) = k"
  by (simp add: Math_round_def)

lemma diffDays_one: "(diffDays a b = Some 1) = oneDayApart a b"
proof (cases "parseDate a")
  case None
  then show ?thesis by (simp add: diffDays_def oneDayApart_def dayNumber_def split: option.splits)
next
  case (Some p)
  note sp = this
  show ?thesis
  proof (cases "parseDate b")
    case None
    then show ?thesis by (simp add: diffDays_def oneDayApart_def dayNumber_def split: option.splits)
  next
    case (Some c)
    obtain x where x: "p = x * msPerDay" using parseDate_multiple [OF sp] by blast
    obtain y where y: "c = y * msPerDay" using parseDate_multiple [OF Some] by blast
    have "c - p = (y - x) * 86400000" by (simp add: x y msPerDay_def algebra_simps)
    then have "Math_round (real_of_int (c - p) / (1000 * 60 * 60 * 24)) = y - x"
      using Math_round_days [of "y - x"] by simp
    moreover have "p div msPerDay = x" "c div msPerDay = y"
      by (simp_all add: x y msPerDay_def)
    ultimately show ?thesis
      using sp Some by (auto simp: diffDays_def oneDayApart_def dayNumber_def)
  qed
qed

lemma runLen_bounds: "r \<noteq> [] \<Longrightarrow> 1 \<le> runLen r \<and> runLen r \<le> length r"
  by (induction r rule: runLen.induct) auto

lemma runLen_run: "successively (\<lambda>a b. oneDayApart b a) (take (runLen r) r)"
  by (induction r rule: runLen.induct) (auto simp: successively_Cons take_Cons' dest: runLen_bounds)

lemma runLen_stop:
  "runLen r < length r \<Longrightarrow> \<not> oneDayApart (r ! runLen r) (r ! (runLen r - 1))"
proof (induction r rule: runLen.induct)
  case 1
  then show ?case by simp
next
  case (2 x)
  then show ?case by simp
next
  case (3 x y zs)
  have b: "1 \<le> runLen (y # zs)" using runLen_bounds [of "y # zs"] by simp
  show ?case
  proof (cases "oneDayApart y x")
    case True
    with 3 b show ?thesis by (auto simp: nth_Cons')
  next
    case False
    then show ?thesis by simp
  qed
qed

lemma runLen_max:
  "n \<le> length r \<Longrightarrow> successively (\<lambda>a b. oneDayApart b a) (take n r) \<Longrightarrow> n \<le> runLen r"
proof (induction r arbitrary: n rule: runLen.induct)
  case 1
  then show ?case by simp
next
  case (2 x)
  then show ?case by simp
next
  case (3 x y zs)
  show ?case
  proof (cases n)
    case 0
    then show ?thesis by simp
  next
    case (Suc m)
    note n = this
    show ?thesis
    proof (cases m)
      case 0
      then show ?thesis using n by simp
    next
      case (Suc k)
      with n 3 show ?thesis by (auto simp: successively_Cons)
    qed
  qed
qed


lemma streakStep_fields:
  "tempStreak (streakStep t y p d s) = stepTemp p d (tempStreak s)"
  "longestStreak (streakStep t y p d s) = max (longestStreak s) (stepTemp p d (tempStreak s))"
  "currentStreak (streakStep t y p d s) =
     (if d = t \<or> d = y then stepTemp p d (tempStreak s) else currentStreak s)"
  "yesterdayHasCoding (streakStep t y p d s) = (yesterdayHasCoding s \<or> d = y)"
  by (auto simp: streakStep_def stepTemp_def Let_def)

lemma stepTemp_runLen:
  "stepTemp (if ds = [] then None else Some (last ds)) d (runLen (rev ds)) = runLen (rev (ds @ [d]))"
proof (cases ds rule: rev_cases)
  case Nil
  then show ?thesis by (simp add: stepTemp_def)
next
  case (snoc xs x)
  then show ?thesis by (simp add: stepTemp_def diffDays_one)
qed

lemma loop_temp: "tempStreak (streakLoop t y None ds streakInit) = runLen (rev ds)"
proof (induction ds rule: rev_induct)
  case Nil
  then show ?case by (simp add: streakInit_def)
next
  case (snoc d ds)
  then show ?case
    by (simp only: streakLoop_snoc streakStep_fields stepTemp_runLen)
qed

lemma loop_yesterday: "yesterdayHasCoding (streakLoop t y None ds streakInit) = (y \<in> set ds)"
proof (induction ds rule: rev_induct)
  case Nil
  then show ?case by (simp add: streakInit_def)
next
  case (snoc d ds)
  then show ?case
    by (simp only: streakLoop_snoc streakStep_fields) auto
qed

lemma loop_longest_step:
  "longestStreak (streakLoop t y None (ds @ [d]) streakInit) =
     max (longestStreak (streakLoop t y None ds streakInit)) (runLen (rev (ds @ [d])))"
  by (simp only: streakLoop_snoc streakStep_fields loop_temp stepTemp_runLen)

lemma loop_longest_upper:
  "k \<le> length ds \<Longrightarrow> runLen (rev (take k ds)) \<le> longestStreak (streakLoop t y None ds streakInit)"
proof (induction ds rule: rev_induct)
  case Nil
  then show ?case by simp
next
  case (snoc d ds)
  show ?case
  proof (cases "k \<le> length ds")
    case True
    with snoc.IH show ?thesis
      by (simp add: loop_longest_step del: rev_append)
  next
    case False
    with snoc.prems have "k = length (ds @ [d])" by simp
    then show ?thesis
      by (simp add: loop_longest_step del: rev_append)
  qed
qed

lemma loop_longest_attained:
  "\<exists>k\<le>length ds. longestStreak (streakLoop t y None ds streakInit) = runLen (rev (take k ds))"
proof (induction ds rule: rev_induct)
  case Nil
  then show ?case by (simp add: streakInit_def)
next
  case (snoc d ds)
  then obtain k where k: "k \<le> length ds"
    "longestStreak (streakLoop t y None ds streakInit) = runLen (rev (take k ds))" by blast
  show ?case
  proof (cases "runLen (rev (ds @ [d])) \<le> longestStreak (streakLoop t y None ds streakInit)")
    case True
    then have "longestStreak (streakLoop t y None (ds @ [d]) streakInit) = runLen (rev (take k (ds @ [d])))"
      using k by (simp add: loop_longest_step del: rev_append)
    moreover have "k \<le> length (ds @ [d])" using k by simp
    ultimately show ?thesis by blast
  next
    case False
    then have "longestStreak (streakLoop t y None (ds @ [d]) streakInit)
        = runLen (rev (take (length (ds @ [d])) (ds @ [d])))"
      by (simp add: loop_longest_step del: rev_append)
    then show ?thesis by blast
  qed
qed

lemma loop_current_none:
  "t \<notin> set ds \<Longrightarrow> y \<notin> set ds \<Longrightarrow> currentStreak (streakLoop t y None ds streakInit) = 0"
proof (induction ds rule: rev_induct)
  case Nil
  then show ?case by (simp add: streakInit_def)
next
  case (snoc d ds)
  then show ?case
    by (simp only: streakLoop_snoc streakStep_fields) auto
qed

lemma loop_current_hit:
  "j < length ds \<Longrightarrow> ds ! j = t \<or> ds ! j = y \<Longrightarrow>
   \<forall>k. j < k \<and> k < length ds \<longrightarrow> ds ! k \<noteq> t \<and> ds ! k \<noteq> y \<Longrightarrow>
   currentStreak (streakLoop t y None ds streakInit) = runLen (rev (take (Suc j) ds))"
proof (induction ds rule: rev_induct)
  case Nil
  then show ?case by simp
next
  case (snoc d ds)
  show ?case
  proof (cases "j < length ds")
    case True
    then have later: "length ds < length (ds @ [d])" "j < length ds" by simp_all
    with snoc.prems(3) have nd: "d \<noteq> t \<and> d \<noteq> y"
      by (metis nth_append_length less_add_one length_append_singleton lessI)
    have "ds ! j = t \<or> ds ! j = y" using snoc.prems(2) True by (simp add: nth_append)
    moreover have "\<forall>k. j < k \<and> k < length ds \<longrightarrow> ds ! k \<noteq> t \<and> ds ! k \<noteq> y"
    proof (intro allI impI)
      fix k assume k: "j < k \<and> k < length ds"
      then have "(ds @ [d]) ! k \<noteq> t \<and> (ds @ [d]) ! k \<noteq> y" using snoc.prems(3) by simp
      with k show "ds ! k \<noteq> t \<and> ds ! k \<noteq> y" by (simp add: nth_append)
    qed
    ultimately have "currentStreak (streakLoop t y None ds streakInit) = runLen (rev (take (Suc j) ds))"
      using snoc.IH True by blast
    with nd True show ?thesis
      by (simp only: streakLoop_snoc streakStep_fields) simp
  next
    case False
    with snoc.prems(1) have j: "j = length ds" by simp
    with snoc.prems(2) have "d = t \<or> d = y" by simp
    then show ?thesis
      by (simp only: streakLoop_snoc streakStep_fields loop_temp stepTemp_runLen j) auto
  qed
qed


lemma take_rev_prefix:
  "n \<le> k \<Longrightarrow> k \<le> length ds \<Longrightarrow> take n (rev (take k ds)) = rev (take n (drop (k - n) ds))"
  by (simp add: take_rev drop_take min_absorb2)

lemma prefix_run:
  assumes "1 \<le> k" "k \<le> length ds"
  shows "1 \<le> runLen (rev (take k ds)) \<and> runLen (rev (take k ds)) \<le> k \<and>
         runAt ds (k - runLen (rev (take k ds))) (runLen (rev (take k ds))) \<and>
         (runLen (rev (take k ds)) < k \<longrightarrow>
            \<not> oneDayApart (ds ! (k - runLen (rev (take k ds)) - 1)) (ds ! (k - runLen (rev (take k ds)))))"
proof -
  define r where "r = rev (take k ds)"
  define n where "n = runLen r"
  have len: "length r = k" using assms by (simp add: r_def)
  then have ne: "r \<noteq> []" using assms by auto
  have b: "1 \<le> n" "n \<le> k" using runLen_bounds [OF ne] len by (simp_all add: n_def)
  have "successively (\<lambda>a b. oneDayApart b a) (take n r)"
    unfolding n_def by (rule runLen_run)
  then have "successively oneDayApart (take n (drop (k - n) ds))"
    using take_rev_prefix [OF b(2) assms(2)] by (simp add: r_def)
  then have run: "runAt ds (k - n) n"
    using b assms by (simp add: runAt_def)
  have stop: "\<not> oneDayApart (ds ! (k - n - 1)) (ds ! (k - n))" if "n < k"
  proof -
    have "\<not> oneDayApart (r ! n) (r ! (n - 1))"
      using runLen_stop [of r] that len by (simp add: n_def)
    moreover have "r ! n = ds ! (k - n - 1)"
      using that assms by (simp add: r_def rev_nth)
    moreover have "r ! (n - 1) = ds ! (k - n)"
      using that assms b by (simp add: r_def rev_nth)
    ultimately show ?thesis by simp
  qed
  from b run stop show ?thesis
    unfolding n_def r_def by blast
qed

lemma run_le_prefix:
  assumes "runAt ds i n"
  shows "n \<le> runLen (rev (take (i + n) ds))"
proof -
  have le: "i + n \<le> length ds" and sc: "successively oneDayApart (take n (drop i ds))"
    using assms by (simp_all add: runAt_def)
  have "take n (rev (take (i + n) ds)) = rev (take n (drop i ds))"
    using take_rev_prefix [of n "i + n" ds] le by simp
  then have "successively (\<lambda>a b. oneDayApart b a) (take n (rev (take (i + n) ds)))"
    using sc by simp
  moreover have "n \<le> length (rev (take (i + n) ds))" using le by simp
  ultimately show ?thesis by (rule runLen_max [rotated])
qed

lemma calculateStreaks_loop:
  assumes "\<forall>e\<in>set es. isCalendarDate (date e)"
  shows "calculateStreaks c es =
     \<lparr>longest = longestStreak (streakLoop (todayStr c) (yesterdayStr c) None (trackedDates es) streakInit),
      current = currentStreak (streakLoop (todayStr c) (yesterdayStr c) None (trackedDates es) streakInit)\<rparr>"
proof (cases "es = []")
  case True
  then show ?thesis by (simp add: calculateStreaks_def trackedDates_def streakInit_def)
next
  case False
  have ds: "sort (map fst (dailyTotalsOf es)) = trackedDates es"
    by (simp only: dates_sorted_list_calendar [OF assms] trackedDates_def)
  have "calculateStreaks c es =
     \<lparr>longest = longestStreak (streakLoop (todayStr c) (yesterdayStr c) None (trackedDates es) streakInit),
      current = (if todayStr c \<notin> set (trackedDates es) \<and> yesterdayStr c \<notin> set (trackedDates es)
                 then 0
                 else currentStreak (streakLoop (todayStr c) (yesterdayStr c) None (trackedDates es) streakInit))\<rparr>"
    using False by (simp only: calculateStreaks_def Let_def ds loop_yesterday) simp
  then show ?thesis
    using loop_current_none [of "todayStr c" "trackedDates es" "yesterdayStr c"]
    by (simp split: if_splits)
qed


lemma set_trackedDates: "set (trackedDates es) = date ` set es"
  by (simp add: trackedDates_def)

text \<open>
  Claim C2, as the code has it, for entries dated by calendar dates in the store's form.
  \<^const>\<open>calculateStreaks\<close> never looks at \<^verbatim>\<open>timeSpent\<close>: two entry lists with the same
  set of dates give the same streaks, so a date whose entries all have zero time counts
  like any other date. With the tracked dates sorted ascending, a run is a block of
  adjacent tracked dates each exactly one day after the one before it. The longest streak
  is the length of the longest run: no run is longer, and some run has that length.
  Whenever the date that the function takes for yesterday is the calendar day before
  today, the current streak is nonzero only if today or yesterday is a tracked date;
  taken at the last tracked date that is today or yesterday, it is the length of the
  maximal run ending there (the run cannot be extended to the left, because the date
  before it, if any, is not one day earlier: a gap starts a new run of length 1).
\<close>

theorem calculateStreaks_runs:
  assumes "\<forall>e\<in>set entries. isCalendarDate (date e)"
  shows
  "(date ` set entries' = date ` set entries \<longrightarrow>
      calculateStreaks c entries' = calculateStreaks c entries) \<and>
   (\<forall>i n. runAt (trackedDates entries) i n \<longrightarrow> n \<le> longest (calculateStreaks c entries)) \<and>
   (\<exists>i. runAt (trackedDates entries) i (longest (calculateStreaks c entries))) \<and>
   (oneDayApart (yesterdayStr c) (todayStr c) \<longrightarrow>
     (current (calculateStreaks c entries) \<noteq> 0 \<longrightarrow>
        todayStr c \<in> date ` set entries \<or> yesterdayStr c \<in> date ` set entries) \<and>
     (\<forall>j. j < length (trackedDates entries) \<and>
        (trackedDates entries ! j = todayStr c \<or> trackedDates entries ! j = yesterdayStr c) \<and>
        (\<forall>k. j < k \<and> k < length (trackedDates entries) \<longrightarrow>
             trackedDates entries ! k \<noteq> todayStr c \<and> trackedDates entries ! k \<noteq> yesterdayStr c) \<longrightarrow>
        1 \<le> current (calculateStreaks c entries) \<and>
        current (calculateStreaks c entries) \<le> j + 1 \<and>
        runAt (trackedDates entries) (j + 1 - current (calculateStreaks c entries))
          (current (calculateStreaks c entries)) \<and>
        (current (calculateStreaks c entries) \<le> j \<longrightarrow>
           \<not> oneDayApart (trackedDates entries ! (j - current (calculateStreaks c entries)))
                (trackedDates entries ! (j + 1 - current (calculateStreaks c entries))))))"
proof -
  define ds where "ds = trackedDates entries"
  define S where "S = streakLoop (todayStr c) (yesterdayStr c) None ds streakInit"
  have r: "calculateStreaks c entries = \<lparr>longest = longestStreak S, current = currentStreak S\<rparr>"
    by (simp add: calculateStreaks_loop [OF assms] S_def ds_def)
  have p1: "calculateStreaks c entries' = calculateStreaks c entries"
    if eq: "date ` set entries' = date ` set entries"
  proof -
    have "\<forall>e\<in>set entries'. isCalendarDate (date e)"
    proof
      fix e assume "e \<in> set entries'"
      then have "date e \<in> date ` set entries" using eq by blast
      then show "isCalendarDate (date e)" using assms by auto
    qed
    from calculateStreaks_loop [OF this] calculateStreaks_loop [OF assms] eq show ?thesis
      by (simp add: trackedDates_def)
  qed
  have p2: "n \<le> longestStreak S" if "runAt ds i n" for i n
  proof -
    have "i + n \<le> length ds" using that by (simp add: runAt_def)
    from loop_longest_upper [OF this] run_le_prefix [OF that] show ?thesis
      unfolding S_def by (rule order_trans [rotated])
  qed
  have p3: "\<exists>i. runAt ds i (longestStreak S)"
  proof -
    obtain k where k: "k \<le> length ds" "longestStreak S = runLen (rev (take k ds))"
      using loop_longest_attained [of ds "todayStr c" "yesterdayStr c"] unfolding S_def by blast
    show ?thesis
    proof (cases "k = 0")
      case True
      then have "longestStreak S = 0" using k by simp
      then have "runAt ds 0 (longestStreak S)" by (simp add: runAt_def)
      then show ?thesis by blast
    next
      case False
      then have "1 \<le> k" by simp
      from prefix_run [OF this k(1)] show ?thesis unfolding k(2) by blast
    qed
  qed
  have p4: "todayStr c \<in> date ` set entries \<or> yesterdayStr c \<in> date ` set entries"
    if "currentStreak S \<noteq> 0"
    using that loop_current_none [of "todayStr c" ds "yesterdayStr c"]
    unfolding S_def ds_def set_trackedDates by auto
  have p5: "1 \<le> currentStreak S \<and> currentStreak S \<le> j + 1 \<and>
        runAt ds (j + 1 - currentStreak S) (currentStreak S) \<and>
        (currentStreak S \<le> j \<longrightarrow>
           \<not> oneDayApart (ds ! (j - currentStreak S)) (ds ! (j + 1 - currentStreak S)))"
    if h: "j < length ds \<and> (ds ! j = todayStr c \<or> ds ! j = yesterdayStr c) \<and>
        (\<forall>k. j < k \<and> k < length ds \<longrightarrow> ds ! k \<noteq> todayStr c \<and> ds ! k \<noteq> yesterdayStr c)" for j
  proof -
    have cur: "currentStreak S = runLen (rev (take (Suc j) ds))"
      unfolding S_def using h by (intro loop_current_hit) blast+
    have "1 \<le> Suc j" "Suc j \<le> length ds" using h by simp_all
    from prefix_run [OF this] show ?thesis
      unfolding cur [symmetric] by (auto simp: less_Suc_eq_le)
  qed
  show ?thesis
    unfolding r ds_def [symmetric]
    using p1 p2 p3 p4 p5 unfolding r by simp
qed

theorem calculateStreaks_runs_witness:
  "map (isCalendarDate \<circ> date) example_entries = [True, True, True, True, True] \<and>
   date ` set example_entries_zeroed = date ` set example_entries \<and>
   calculateStreaks example_clock example_entries_zeroed
     = calculateStreaks example_clock example_entries \<and>
   runAt (trackedDates example_entries) 0 3 \<and>
   3 \<le> longest (calculateStreaks example_clock example_entries) \<and>
   oneDayApart (yesterdayStr example_clock) (todayStr example_clock) \<and>
   current (calculateStreaks example_clock example_entries) \<noteq> 0 \<and>
   (todayStr example_clock \<in> date ` set example_entries \<or>
    yesterdayStr example_clock \<in> date ` set example_entries) \<and>
   3 < length (trackedDates example_entries) \<and>
   trackedDates example_entries ! 3 = todayStr example_clock \<and>
   current (calculateStreaks example_clock example_entries) = 1 \<and>
   runAt (trackedDates example_entries) 3 1 \<and>
   \<not> oneDayApart (trackedDates example_entries ! 2) (trackedDates example_entries ! 3)"
proof -
  have v: "\<forall>e\<in>set example_entries. isCalendarDate (date e)"
    by code_simp
  note T = calculateStreaks_runs [OF v, of example_entries_zeroed example_clock]
  have td: "trackedDates example_entries =
            [''2024-01-01'', ''2024-01-02'', ''2024-01-03'', ''2024-01-05'']"
    by code_simp
  have today: "todayStr example_clock = ''2024-01-05''"
    by code_simp
  have y: "oneDayApart (yesterdayStr example_clock) (todayStr example_clock)"
    by code_simp
  have cur: "current (calculateStreaks example_clock example_entries) = 1"
    by code_simp
  have len: "length (trackedDates example_entries) = 4"
    by (simp add: td)
  have n3: "trackedDates example_entries ! 3 = ''2024-01-05''"
    by (simp add: td)
  have h1: "date ` set example_entries_zeroed = date ` set example_entries"
    by (simp add: example_entries_zeroed_def example_entries_def)
  have c1: "calculateStreaks example_clock example_entries_zeroed
              = calculateStreaks example_clock example_entries"
    using T h1 by blast
  have h2: "runAt (trackedDates example_entries) 0 3"
    by code_simp
  have c2: "3 \<le> longest (calculateStreaks example_clock example_entries)"
    using T h2 by blast
  have h4: "current (calculateStreaks example_clock example_entries) \<noteq> 0"
    using cur by simp
  have c4: "todayStr example_clock \<in> date ` set example_entries \<or>
            yesterdayStr example_clock \<in> date ` set example_entries"
    using T y h4 by blast
  have h5: "3 < length (trackedDates example_entries) \<and>
        (trackedDates example_entries ! 3 = todayStr example_clock \<or>
         trackedDates example_entries ! 3 = yesterdayStr example_clock) \<and>
        (\<forall>k. 3 < k \<and> k < length (trackedDates example_entries) \<longrightarrow>
             trackedDates example_entries ! k \<noteq> todayStr example_clock \<and>
             trackedDates example_entries ! k \<noteq> yesterdayStr example_clock)"
    unfolding len n3 today by auto
  have c5: "runAt (trackedDates example_entries) (3 + 1 - current (calculateStreaks example_clock example_entries))
          (current (calculateStreaks example_clock example_entries)) \<and>
        (current (calculateStreaks example_clock example_entries) \<le> 3 \<longrightarrow>
           \<not> oneDayApart (trackedDates example_entries ! (3 - current (calculateStreaks example_clock example_entries)))
                (trackedDates example_entries ! (3 + 1 - current (calculateStreaks example_clock example_entries))))"
    using T y h5 by blast
  from c5 have c5': "runAt (trackedDates example_entries) 3 1 \<and>
     \<not> oneDayApart (trackedDates example_entries ! 2) (trackedDates example_entries ! 3)"
    unfolding cur by simp
  have v': "map (isCalendarDate \<circ> date) example_entries = [True, True, True, True, True]"
    by code_simp
  from v' h1 c1 h2 c2 y h4 c4 len n3 today cur c5' show ?thesis
    by simp
qed

text \<open>
  The date taken for yesterday is not always the day before today. The step back is made
  on the local date and the result is printed in UTC; on the evening of the day on which
  daylight saving time ends in New York, the local date one day back at the same local
  time is 25 hours earlier, which in UTC is two days before today. Then an entry of the
  real yesterday gives a current streak of 0, and an entry of the day before gives 1.
  The statement above makes no promise for such clock readings.
\<close>

lemma yesterdayStr_daylight_saving:
  "todayStr clock_new_york_autumn = ''2024-11-04'' \<and>
   yesterdayStr clock_new_york_autumn = ''2024-11-02'' \<and>
   \<not> oneDayApart (yesterdayStr clock_new_york_autumn) (todayStr clock_new_york_autumn) \<and>
   current (calculateStreaks clock_new_york_autumn [autumn_entry ''2024-11-03'']) = 0 \<and>
   current (calculateStreaks clock_new_york_autumn [autumn_entry ''2024-11-02'']) = 1"
  by code_simp

text \<open>
  Claim C2, as stated, fails. With today 2024-01-05, an entry of 30 minutes on 2024-01-04
  alone gives streaks of 1 and 1; adding an entry of zero minutes on 2024-01-05 extends
  both to 2. And with entries on 2024-01-05 and 2024-01-06 the most recent tracked date
  is 2024-01-06, neither today nor yesterday, yet the current streak is 1.
\<close>

theorem calculateStreaks_zero_time_counterexample:
  "timeSpent (zero_day_entries ! 1) = 0 \<and>
   calculateStreaks example_clock (take 1 zero_day_entries) = \<lparr>longest = 1, current = 1\<rparr> \<and>
   calculateStreaks example_clock zero_day_entries = \<lparr>longest = 2, current = 2\<rparr> \<and>
   todayStr example_clock = ''2024-01-05'' \<and> yesterdayStr example_clock = ''2024-01-04'' \<and>
   last (trackedDates future_entries) = ''2024-01-06'' \<and>
   current (calculateStreaks example_clock future_entries) = 1"
  by code_simp

section \<open>Properties of the rollup totals\<close>

lemma sumTime_sum_list: "sumTime entries = sum_list (map timeSpent entries)"
proof -
  have "foldl (\<lambda>sum entry. sum + timeSpent entry) a entries = a + sum_list (map timeSpent entries)"
    for a
    by (induction entries arbitrary: a) (simp_all add: add.assoc)
  then show ?thesis by (simp add: sumTime_def)
qed

text \<open>
  Each rollup is the total of the entries dated between the start string the function
  computes and today's UTC date; the today rollup takes the entries dated today.
\<close>

lemma rollups_totalBetween:
  "getTodayTime c entries = totalBetween (todayStr c) (todayStr c) entries"
  "getThisWeekTime c entries = totalBetween (startOfWeekStr c) (todayStr c) entries"
  "getThisMonthTime c entries = totalBetween (startOfMonthStr c) (todayStr c) entries"
  "getThisYearTime c entries = totalBetween (startOfYearStr c) (todayStr c) entries"
proof -
  have "filter (\<lambda>entry. date entry = T) entries =
        filter (\<lambda>entry. T \<le> date entry \<and> date entry \<le> T) entries" for T
    by (rule filter_cong) auto
  then show "getTodayTime c entries = totalBetween (todayStr c) (todayStr c) entries"
    by (simp only: getTodayTime_def totalBetween_def sumTime_sum_list todayStr_def Let_def)
qed (simp_all add: getThisWeekTime_def getThisMonthTime_def getThisYearTime_def
      totalBetween_def sumTime_sum_list todayStr_def)

text \<open>
  Claim C4 at a clock east of UTC. At 12:00 on Wednesday 2024-01-10 in Berlin the week
  began on Sunday 2024-01-07, the month and the year on 2024-01-01. The three start dates
  are built at local midnight and printed in UTC, which is still the previous day: the
  week starts at Saturday 2024-01-06, the month and the year at 2023-12-31. An entry of
  30 minutes on that Saturday is counted into this week, and an entry of 20 minutes on
  2023-12-31 into this month and this year, where the totals over the intervals of the
  claim are 0, 30 and 30. Read in UTC, the same instant gives the starts and the totals
  of the claim.
\<close>

theorem rollups_east_of_utc:
  "todayStr clock_berlin = ''2024-01-10'' \<and>
   getFullYear clock_berlin (nowMs clock_berlin) = 2024 \<and>
   getMonth clock_berlin (nowMs clock_berlin) = 0 \<and>
   getDate clock_berlin (nowMs clock_berlin) = 10 \<and>
   getDay clock_berlin (nowMs clock_berlin) = 3 \<and>
   calendarWeekday ''2024-01-07'' = Some 0 \<and>
   startOfWeekStr clock_berlin = ''2024-01-06'' \<and>
   startOfMonthStr clock_berlin = ''2023-12-31'' \<and>
   startOfYearStr clock_berlin = ''2023-12-31'' \<and>
   getThisWeekTime clock_berlin rollup_entries = 30 \<and>
   totalBetween ''2024-01-07'' ''2024-01-10'' rollup_entries = 0 \<and>
   getThisMonthTime clock_berlin rollup_entries = 50 \<and>
   getThisYearTime clock_berlin rollup_entries = 50 \<and>
   totalBetween ''2024-01-01'' ''2024-01-10'' rollup_entries = 30 \<and>
   startOfWeekStr clock_utc = ''2024-01-07'' \<and>
   startOfMonthStr clock_utc = ''2024-01-01'' \<and>
   startOfYearStr clock_utc = ''2024-01-01'' \<and>
   getThisWeekTime clock_utc rollup_entries = 0 \<and>
   getThisMonthTime clock_utc rollup_entries = 30 \<and>
   getThisYearTime clock_utc rollup_entries = 30"
  by code_simp

section \<open>Properties of calculateDayOfWeekStats\<close>

lemma entryDayOfWeek_range: "entryDayOfWeek c e = Some d \<Longrightarrow> d < 7"
  by (auto simp: entryDayOfWeek_def getDay_def nat_less_iff)

lemma addDayOfWeek_step:
  assumes "length T = 7" "length C = 7"
  shows "length (fst (addDayOfWeek c (T, C) e)) = 7 \<and> length (snd (addDayOfWeek c (T, C) e)) = 7 \<and>
         (\<forall>i<7. fst (addDayOfWeek c (T, C) e) ! i
                   = T ! i + (if entryDayOfWeek c e = Some i then timeSpent e else 0) \<and>
                 snd (addDayOfWeek c (T, C) e) ! i
                   = C ! i + (if entryDayOfWeek c e = Some i then 1 else 0))"
proof (cases "entryDayOfWeek c e")
  case None
  with assms show ?thesis by (simp add: addDayOfWeek_def)
next
  case (Some d)
  then have "d < 7" by (rule entryDayOfWeek_range)
  with Some assms show ?thesis
    by (auto simp: addDayOfWeek_def nth_list_update)
qed

lemma foldl_addDayOfWeek:
  assumes "length T = 7" "length C = 7"
  shows "length (fst (foldl (addDayOfWeek c) (T, C) es)) = 7 \<and>
         length (snd (foldl (addDayOfWeek c) (T, C) es)) = 7 \<and>
         (\<forall>i<7. fst (foldl (addDayOfWeek c) (T, C) es) ! i
                   = T ! i + sum_list (map timeSpent (entriesOn c es i)) \<and>
                 snd (foldl (addDayOfWeek c) (T, C) es) ! i
                   = C ! i + length (entriesOn c es i))"
  using assms
proof (induction es arbitrary: T C)
  case Nil
  then show ?case by (simp add: entriesOn_def)
next
  case (Cons e es)
  obtain T' C' where tc: "addDayOfWeek c (T, C) e = (T', C')" by (cases "addDayOfWeek c (T, C) e")
  from addDayOfWeek_step [OF Cons.prems, of c e] tc
  have l: "length T' = 7" "length C' = 7"
    and v: "\<forall>i<7. T' ! i = T ! i + (if entryDayOfWeek c e = Some i then timeSpent e else 0) \<and>
                  C' ! i = C ! i + (if entryDayOfWeek c e = Some i then 1 else 0)"
    by simp_all
  from Cons.IH [OF l] v show ?case
    by (auto simp: tc entriesOn_def)
qed

lemma takeWhile_neq_less: "v \<in> set xs \<Longrightarrow> length (takeWhile (\<lambda>x. x \<noteq> v) xs) < length xs"
  by (induction xs) auto

lemma Math_max_Max:
  assumes "xs \<noteq> []"
  shows "Math_max xs = Max (set xs)"
proof (cases xs)
  case Nil
  then show ?thesis using assms by simp
next
  case (Cons a list)
  then show ?thesis
    using Max.set_eq_fold [of a list] by (simp add: Math_max_def)
qed

lemma indexOf_first:
  assumes "v \<in> set xs"
  shows "0 \<le> indexOf xs v \<and> nat (indexOf xs v) < length xs \<and> xs ! nat (indexOf xs v) = v \<and>
         (\<forall>j<nat (indexOf xs v). xs ! j \<noteq> v)"
proof -
  let ?n = "length (takeWhile (\<lambda>x. x \<noteq> v) xs)"
  have i: "indexOf xs v = int ?n" using assms by (simp add: indexOf_def)
  have lt: "?n < length xs"
    using assms by (rule takeWhile_neq_less)
  have "\<not> (xs ! ?n \<noteq> v)" using lt by (rule nth_length_takeWhile)
  moreover have "\<forall>j<?n. xs ! j \<noteq> v"
  proof (intro allI impI)
    fix j assume j: "j < ?n"
    then have "takeWhile (\<lambda>x. x \<noteq> v) xs ! j \<in> set (takeWhile (\<lambda>x. x \<noteq> v) xs)"
      by (rule nth_mem)
    then have "takeWhile (\<lambda>x. x \<noteq> v) xs ! j \<noteq> v"
      by (auto dest: set_takeWhileD)
    then show "xs ! j \<noteq> v"
      using j by (simp add: takeWhile_nth)
  qed
  ultimately show ?thesis using i lt by simp
qed


text \<open>
  Whatever the clock, the figure of a weekday is the mean time of the entries put under
  it (0 when there are none), and the most productive day is the first weekday whose
  figure is the greatest.
\<close>

lemma calculateDayOfWeekStats_averages:
  "length (days (calculateDayOfWeekStats c entries)) = 7 \<and>
   (\<forall>i<7. days (calculateDayOfWeekStats c entries) ! i =
      (if length (entriesOn c entries i) > 0
       then sum_list (map timeSpent (entriesOn c entries i)) / real (length (entriesOn c entries i))
       else 0)) \<and>
   0 \<le> mostProductive_index (calculateDayOfWeekStats c entries) \<and>
   mostProductive_index (calculateDayOfWeekStats c entries) < 7 \<and>
   mostProductive_avgTime (calculateDayOfWeekStats c entries) =
     days (calculateDayOfWeekStats c entries) ! nat (mostProductive_index (calculateDayOfWeekStats c entries)) \<and>
   mostProductive_name (calculateDayOfWeekStats c entries) =
     dayNames ! nat (mostProductive_index (calculateDayOfWeekStats c entries)) \<and>
   (\<forall>j<7. days (calculateDayOfWeekStats c entries) ! j
             \<le> mostProductive_avgTime (calculateDayOfWeekStats c entries)) \<and>
   (\<forall>j<nat (mostProductive_index (calculateDayOfWeekStats c entries)).
        days (calculateDayOfWeekStats c entries) ! j
          < mostProductive_avgTime (calculateDayOfWeekStats c entries))"
proof -
  obtain T C where fc:
    "foldl (addDayOfWeek c) ([0, 0, 0, 0, 0, 0, 0], [0, 0, 0, 0, 0, 0, 0]) entries = (T, C)"
    by (cases "foldl (addDayOfWeek c) ([0, 0, 0, 0, 0, 0, 0], [0, 0, 0, 0, 0, 0, 0]) entries")
  define A where "A = map (\<lambda>index. if C ! index > 0 then T ! index / real (C ! index) else 0) [0..<length T]"
  define m where "m = indexOf A (Math_max A)"
  have zr: "[0, 0, 0, 0, 0, 0, 0::real] = replicate 7 0" and zn: "[0, 0, 0, 0, 0, 0, 0::nat] = replicate 7 0"
    by (simp_all add: eval_nat_numeral)
  have f: "length T = 7 \<and> length C = 7 \<and>
      (\<forall>i<7. T ! i = replicate 7 (0::real) ! i + sum_list (map timeSpent (entriesOn c entries i)) \<and>
              C ! i = replicate 7 (0::nat) ! i + length (entriesOn c entries i))"
    using foldl_addDayOfWeek [of "replicate 7 0" "replicate 7 0" c entries] fc
    unfolding zr zn by simp
  have TC: "T ! i = sum_list (map timeSpent (entriesOn c entries i))" "C ! i = length (entriesOn c entries i)"
    if "i < 7" for i
    using f that by simp_all
  have r: "calculateDayOfWeekStats c entries =
      \<lparr>days = A, mostProductive_name = dayNames ! nat m, mostProductive_avgTime = A ! nat m,
       mostProductive_index = m\<rparr>"
    by (simp add: calculateDayOfWeekStats_def fc A_def m_def Let_def)
  have lenA: "length A = 7" using f by (simp add: A_def)
  have Ai: "A ! i = (if length (entriesOn c entries i) > 0
       then sum_list (map timeSpent (entriesOn c entries i)) / real (length (entriesOn c entries i))
       else 0)" if "i < 7" for i
    using that f TC [OF that] by (simp add: A_def)
  have ne: "A \<noteq> []" using lenA by auto
  have mx: "Math_max A = Max (set A)" using ne by (rule Math_max_Max)
  have mem: "Math_max A \<in> set A" unfolding mx using ne by simp
  from indexOf_first [OF mem]
  have i0: "0 \<le> m" and i1: "nat m < length A" and i2: "A ! nat m = Math_max A"
    and i3: "\<forall>j<nat m. A ! j \<noteq> Math_max A"
    unfolding m_def by simp_all
  have le: "A ! j \<le> Math_max A" if "j < 7" for j
    unfolding mx using that lenA by simp
  have less: "A ! j < Math_max A" if "j < nat m" for j
  proof -
    have "j < 7" using that i1 lenA by simp
    from le [OF this] i3 that show ?thesis by (simp add: order_neq_le_trans)
  qed
  have m7: "m < 7" using i1 lenA i0 by simp
  have p1: "\<forall>i<7. A ! i = (if length (entriesOn c entries i) > 0
       then sum_list (map timeSpent (entriesOn c entries i)) / real (length (entriesOn c entries i))
       else 0)" using Ai by blast
  have p2: "\<forall>j<7. A ! j \<le> A ! nat m" using le i2 by simp
  have p3: "\<forall>j<nat m. A ! j < A ! nat m" using less i2 by simp
  show ?thesis
    unfolding r dayOfWeekStats.select_convs using lenA p1 p2 p3 i0 m7 by blast
qed


text \<open>
  At or east of UTC (by less than a day) an entry is put under the weekday of its date;
  west of UTC it is put under the weekday before.
\<close>

lemma div_unique_int: "0 \<le> r \<Longrightarrow> r < b \<Longrightarrow> (q * b + r) div b = (q::int)"
  by (simp add: div_pos_pos_trivial)

lemma entry_weekday_east:
  assumes "\<forall>t. 0 \<le> localTZA c t True \<and> localTZA c t True < 86400000"
  shows "entryDayOfWeek c e = map_option nat (calendarWeekday (date e))"
proof (cases "parseDate (date e)")
  case None
  then show ?thesis by (simp add: entryDayOfWeek_def calendarWeekday_def dayNumber_def)
next
  case (Some t)
  then obtain k where t: "t = k * msPerDay" using parseDate_multiple by blast
  define z where "z = localTZA c (k * 86400000) True"
  have "0 \<le> z" "z < 86400000" using assms by (simp_all add: z_def)
  then have "(k * 86400000 + z) div 86400000 = k"
    by (rule div_unique_int)
  then show ?thesis
    using Some by (simp add: entryDayOfWeek_def calendarWeekday_def dayNumber_def getDay_def
        localDayNumber_def LocalTime_def t msPerDay_def z_def)
qed

lemma entry_weekday_west:
  assumes "\<forall>t. - 86400000 \<le> localTZA c t True \<and> localTZA c t True < 0"
  shows "entryDayOfWeek c e = map_option (\<lambda>w. nat ((w + 6) mod 7)) (calendarWeekday (date e))"
proof (cases "parseDate (date e)")
  case None
  then show ?thesis by (simp add: entryDayOfWeek_def calendarWeekday_def dayNumber_def)
next
  case (Some t)
  then obtain k where t: "t = k * msPerDay" using parseDate_multiple by blast
  define z where "z = localTZA c (k * 86400000) True"
  have zb: "- 86400000 \<le> z" "z < 0" using assms by (simp_all add: z_def)
  have "(k * 86400000 + z) div 86400000 = k - 1"
  proof -
    have "k * 86400000 + z = (k - 1) * 86400000 + (86400000 + z)"
      by (simp add: algebra_simps)
    moreover have "((k - 1) * 86400000 + (86400000 + z)) div 86400000 = k - 1"
      using zb by (intro div_unique_int) simp_all
    ultimately show ?thesis by simp
  qed
  moreover have "(k - 1 + 4) mod 7 = ((k + 4) mod 7 + 6) mod 7"
    by presburger
  ultimately show ?thesis
    using Some by (simp add: entryDayOfWeek_def calendarWeekday_def dayNumber_def getDay_def
        localDayNumber_def LocalTime_def t msPerDay_def z_def)
qed

text \<open>
  Claim C5 at a clock west of UTC. 2024-01-08 is a Monday. The entry's date is parsed as
  midnight UTC and its weekday is read in local time, which in New York is still Sunday
  evening: the 60 minutes of the Monday entry are averaged under Sunday, and Sunday is
  reported as the most productive day.
\<close>

theorem dayOfWeek_west_of_utc:
  "calendarWeekday ''2024-01-08'' = Some 1 \<and>
   entryDayOfWeek clock_new_york (monday_entries ! 0) = Some 0 \<and>
   days (calculateDayOfWeekStats clock_new_york monday_entries) = [60, 0, 0, 0, 0, 0, 0] \<and>
   mostProductive_index (calculateDayOfWeekStats clock_new_york monday_entries) = 0 \<and>
   mostProductive_name (calculateDayOfWeekStats clock_new_york monday_entries) = ''Sunday'' \<and>
   mostProductive_avgTime (calculateDayOfWeekStats clock_new_york monday_entries) = 60"
  by code_simp

section \<open>Properties of detectLanguageFromFile\<close>

lemma toLowerChar_not_upper: "\<not> (65 \<le> (of_char (toLowerChar c) :: nat) \<and> (of_char (toLowerChar c) :: nat) \<le> 90)"
proof -
  have lt: "(of_char c :: nat) < 256" by simp
  show ?thesis
    using lt by (auto simp: toLowerChar_def Let_def)
qed

lemma toLowerCase_no_upper:
  assumes "c \<in> set (toLowerCase s)"
  shows "\<not> (65 \<le> (of_char c :: nat) \<and> (of_char c :: nat) \<le> 90)"
  using assms toLowerChar_not_upper by (auto simp: toLowerCase_def)

lemma inherited_lowercase:
  assumes "toLowerCase s \<in> set objectPrototypeKeys"
  shows "toLowerCase s = ''constructor'' \<or> toLowerCase s = ''__proto__''"
proof (rule ccontr)
  assume n: "\<not> ?thesis"
  define k where "k = toLowerCase s"
  have nu: "\<And>c. c \<in> set k \<Longrightarrow> \<not> (65 \<le> (of_char c :: nat) \<and> (of_char c :: nat) \<le> 90)"
    unfolding k_def by (rule toLowerCase_no_upper)
  from assms n have "k \<in> {''__defineGetter__'', ''__defineSetter__'', ''hasOwnProperty'',
      ''__lookupGetter__'', ''__lookupSetter__'', ''isPrototypeOf'', ''propertyIsEnumerable'',
      ''toString'', ''valueOf'', ''toLocaleString''}"
    by (auto simp: objectPrototypeKeys_def k_def)
  then consider "CHR ''G'' \<in> set k" | "CHR ''S'' \<in> set k" | "CHR ''O'' \<in> set k" | "CHR ''P'' \<in> set k"
    | "CHR ''I'' \<in> set k" | "CHR ''E'' \<in> set k" | "CHR ''L'' \<in> set k"
    by auto
  then show False
    by cases (auto dest!: nu)
qed

lemma languageMap_values: "map_of languageMap k = Some v \<Longrightarrow> v \<noteq> []"
proof -
  assume "map_of languageMap k = Some v"
  then have "(k, v) \<in> set languageMap" by (rule map_of_SomeD)
  then show ?thesis by (auto simp: languageMap_def)
qed

lemma detectFromFilename_nonempty: "detectFromFilename p \<noteq> []"
  by (simp add: detectFromFilename_def Let_def)

text \<open>
  The function is total, and what it returns is a non-empty string except for the two
  lower-case keys that every object inherits.
\<close>

lemma detectLanguageFromFile_results:
  "detectLanguageFromFile p = Inherited ''constructor'' \<and> fileExtension p = ''constructor'' \<or>
   detectLanguageFromFile p = Inherited ''__proto__'' \<and> fileExtension p = ''__proto__'' \<or>
   (\<exists>s. detectLanguageFromFile p = Str s \<and> s \<noteq> [])"
proof (cases "p = []")
  case True
  then show ?thesis by (simp add: detectLanguageFromFile_def)
next
  case False
  show ?thesis
  proof (cases "map_of languageMap (fileExtension p)")
    case (Some v)
    then have "v \<noteq> []" by (rule languageMap_values)
    with Some False show ?thesis
      by (auto simp: detectLanguageFromFile_def getProperty_def Let_def detectFromFilename_nonempty)
  next
    case None
    show ?thesis
    proof (cases "fileExtension p \<in> set objectPrototypeKeys")
      case True
      then have "fileExtension p = ''constructor'' \<or> fileExtension p = ''__proto__''"
        unfolding fileExtension_def by (rule inherited_lowercase)
      with None True False show ?thesis
        by (auto simp: detectLanguageFromFile_def getProperty_def Let_def)
    next
      case nk: False
      with None False show ?thesis
        by (simp add: detectLanguageFromFile_def getProperty_def Let_def detectFromFilename_nonempty)
    qed
  qed
qed

text \<open>
  Claim C10 at a path whose last dot-separated piece is \<^verbatim>\<open>constructor\<close> or \<^verbatim>\<open>__proto__\<close>.
  The lookup in the language map finds the member inherited from \<^verbatim>\<open>Object.prototype\<close>,
  which is truthy, and the function returns it: a function or an object, not a language
  name. Another unknown extension gives "Other".
\<close>

theorem detectLanguageFromFile_inherited:
  "detectLanguageFromFile ''constructor'' = Inherited ''constructor'' \<and>
   detectLanguageFromFile ''src/widget.constructor'' = Inherited ''constructor'' \<and>
   detectLanguageFromFile ''notes.__proto__'' = Inherited ''__proto__'' \<and>
   detectLanguageFromFile ''notes.unknown'' = Str ''Other''"
  by code_simp

section \<open>Properties of the persisted store\<close>

lemma dateTotal_update:
  "dateTotal (AList.update k v st) d =
     dateTotal st d + (if keyDate k = d then v - (case map_of st k of None \<Rightarrow> 0 | Some m \<Rightarrow> m) else 0)"
  by (induction st) (auto simp: dateTotal_def)

lemma dateTotal_mergeEntry:
  "dateTotal (mergeEntry st k delta) d = dateTotal st d + (if keyDate k = d then delta else 0)"
  by (simp add: mergeEntry_def dateTotal_update)

lemma commitDelta_total:
  "dateTotal st d \<le> 1440 \<Longrightarrow> dateTotal (snd (commitDelta st k delta)) d \<le> 1440"
  by (auto simp: commitDelta_def dateTotal_mergeEntry)

lemma flushAll_total:
  "dateTotal st d \<le> 1440 \<Longrightarrow> dateTotal (flushAll st commits) d \<le> 1440"
  unfolding flushAll_def
  by (induction commits arbitrary: st) (simp_all add: commitDelta_total)

text \<open>
  Claim C6. A commit of a delta outside [0, 1440] minutes is rejected: the store is
  returned unchanged and no entry is written; the delta is not clamped into the range.
  So is a commit that would take the total of its date above 1440. Hence in every store
  reached from the empty one by any sequence of commits, the entries of any single date
  sum to at most 1440 minutes.
\<close>

theorem commit_rejects_out_of_range:
  "(\<forall>st k delta. delta < 0 \<or> 1440 < delta \<longrightarrow> commitDelta st k delta = (Rejected, st)) \<and>
   (\<forall>st k delta. 1440 < dateTotal st (keyDate k) + delta \<longrightarrow> commitDelta st k delta = (Rejected, st)) \<and>
   (\<forall>commits d. dateTotal (flushAll [] commits) d \<le> 1440)"
proof -
  have "dateTotal (flushAll [] commits) d \<le> 1440" for commits d
    by (rule flushAll_total) (simp add: dateTotal_def)
  then show ?thesis
    by (simp add: commitDelta_def)
qed

theorem commit_rejects_out_of_range_witness:
  "((1441::real) < 0 \<or> (1440::real) < 1441) \<and>
   commitDelta [(example_key, 1000)] example_key 1441 = (Rejected, [(example_key, 1000)]) \<and>
   (1440::real) < dateTotal [(example_key, 1000)] (keyDate example_key) + 500 \<and>
   commitDelta [(example_key, 1000)] example_key 500 = (Rejected, [(example_key, 1000)]) \<and>
   dateTotal (flushAll [] [(example_key, 1000), (example_key, 500), (example_key, 400)])
     (keyDate example_key) \<le> 1440"
proof -
  note T = commit_rejects_out_of_range
  have h1: "(1441::real) < 0 \<or> (1440::real) < 1441" by simp
  have c1: "commitDelta [(example_key, 1000)] example_key 1441 = (Rejected, [(example_key, 1000)])"
    using T h1 by blast
  have h2: "(1440::real) < dateTotal [(example_key, 1000)] (keyDate example_key) + 500"
    by (simp add: dateTotal_def)
  have c2: "commitDelta [(example_key, 1000)] example_key 500 = (Rejected, [(example_key, 1000)])"
    using T h2 by blast
  have c3: "dateTotal (flushAll [] [(example_key, 1000), (example_key, 500), (example_key, 400)])
     (keyDate example_key) \<le> 1440"
    using T by blast
  from h1 c1 h2 c2 c3 show ?thesis by blast
qed

lemma entriesFor_update_absent:
  "map_of st k = None \<Longrightarrow> entriesFor (AList.update k v st) k = [(k, v)]"
  by (induction st) (auto simp: entriesFor_def split: if_splits)

lemma entriesFor_update_single:
  "entriesFor st k = [(k, m)] \<Longrightarrow> entriesFor (AList.update k v st) k = [(k, v)] \<and> map_of st k = Some m"
  by (induction st) (auto simp: entriesFor_def entriesFor_update_absent [unfolded entriesFor_def] split: if_splits)


lemma entriesFor_absent: "entriesFor st k = [] \<Longrightarrow> map_of st k = None"
  by (induction st) (auto simp: entriesFor_def split: if_splits)

lemma flushKey_Cons:
  "flushKey st k (d # ds) = flushKey (snd (commitDelta st k d)) k ds"
  by (simp add: flushKey_def flushAll_def)

lemma flushKey_present:
  assumes "entriesFor st k = [(k, m)]"
    and "\<forall>d\<in>set ds. 0 \<le> d \<and> d \<le> 1440"
    and "dateTotal st (keyDate k) + sum_list ds \<le> 1440"
  shows "entriesFor (flushKey st k ds) k = [(k, m + sum_list ds)]"
  using assms
proof (induction ds arbitrary: st m)
  case Nil
  then show ?case by (simp add: flushKey_def flushAll_def)
next
  case (Cons d ds)
  have nn: "0 \<le> sum_list ds" using Cons.prems(2) by (simp add: sum_list_nonneg)
  have d: "0 \<le> d" "d \<le> 1440" using Cons.prems(2) by simp_all
  have cap: "dateTotal st (keyDate k) + d \<le> 1440" using Cons.prems(3) nn by simp
  have step: "snd (commitDelta st k d) = mergeEntry st k d"
    using d cap by (simp add: commitDelta_def)
  have row: "entriesFor (mergeEntry st k d) k = [(k, m + d)]"
    using entriesFor_update_single [OF Cons.prems(1)] by (simp add: mergeEntry_def)
  have tot: "dateTotal (mergeEntry st k d) (keyDate k) + sum_list ds \<le> 1440"
    using Cons.prems(3) by (simp add: dateTotal_mergeEntry)
  have "entriesFor (flushKey (mergeEntry st k d) k ds) k = [(k, m + d + sum_list ds)]"
    using Cons.IH [OF row _ tot] Cons.prems(2) by simp
  then show ?case
    by (simp add: flushKey_Cons step add.assoc)
qed

text \<open>
  Claim C7, for deltas that are committed. Flushing one or more deltas for a fixed key,
  each within [0, 1440] and together keeping the total of the date within 1440, into a
  store that has no entry for the key, leaves exactly one entry for the key, and its
  minutes are the sum of the deltas.
\<close>

theorem flush_merges_accepted_deltas:
  assumes "deltas \<noteq> []"
    and "\<forall>d\<in>set deltas. 0 \<le> d \<and> d \<le> 1440"
    and "dateTotal st (keyDate k) + sum_list deltas \<le> 1440"
    and "entriesFor st k = []"
  shows "entriesFor (flushKey st k deltas) k = [(k, sum_list deltas)]"
proof (cases deltas)
  case Nil
  with assms(1) show ?thesis by simp
next
  case (Cons d ds)
  have nn: "0 \<le> sum_list ds" using assms(2) Cons by (simp add: sum_list_nonneg)
  have d: "0 \<le> d" "d \<le> 1440" using assms(2) Cons by simp_all
  have cap: "dateTotal st (keyDate k) + d \<le> 1440" using assms(3) Cons nn by simp
  have step: "snd (commitDelta st k d) = mergeEntry st k d"
    using d cap by (simp add: commitDelta_def)
  have row: "entriesFor (mergeEntry st k d) k = [(k, d)]"
    using entriesFor_update_absent [OF entriesFor_absent [OF assms(4)]] by (simp add: mergeEntry_def entriesFor_absent [OF assms(4)])
  have tot: "dateTotal (mergeEntry st k d) (keyDate k) + sum_list ds \<le> 1440"
    using assms(3) Cons by (simp add: dateTotal_mergeEntry)
  have "entriesFor (flushKey (mergeEntry st k d) k ds) k = [(k, d + sum_list ds)]"
    using flushKey_present [OF row _ tot] assms(2) Cons by simp
  then show ?thesis
    by (simp add: Cons flushKey_Cons step)
qed

theorem flush_merges_accepted_deltas_witness:
  "[30, 45, 5 / 2] \<noteq> ([] :: real list) \<and>
   entriesFor [] example_key = [] \<and>
   entriesFor (flushKey [] example_key [30, 45, 5 / 2]) example_key = [(example_key, 155 / 2)]"
proof -
  have a: "[30, 45, 5 / 2] \<noteq> ([] :: real list)" by simp
  have b: "\<forall>d\<in>set [30, 45, 5 / 2 :: real]. 0 \<le> d \<and> d \<le> 1440" by simp
  have c: "dateTotal [] (keyDate example_key) + sum_list [30, 45, 5 / 2] \<le> 1440"
    by (simp add: dateTotal_def)
  have d: "entriesFor [] example_key = []" by (simp add: entriesFor_def)
  from flush_merges_accepted_deltas [OF a b c d] a d show ?thesis by simp
qed

text \<open>
  Claim C7, as stated for every natural number N, fails. Flushing no delta at all (N = 0)
  leaves no entry for the key. And of two deltas of 1000 minutes for one key the second
  is rejected, because it would take the date above 1440: the entry holds 1000, not the
  sum 2000.
\<close>

theorem flush_merge_counterexample:
  "entriesFor (flushKey [] example_key []) example_key = [] \<and>
   entriesFor (flushKey [] example_key [1000, 1000]) example_key = [(example_key, 1000)] \<and>
   sum_list [1000, 1000 :: real] = 2000"
  by (simp add: flushKey_def flushAll_def commitDelta_def mergeEntry_def dateTotal_def
      entriesFor_def example_key_def)

section \<open>Properties of the session state machine\<close>

lemma nextSignal_spaced:
  "spacedActivity timeout lastAt evs \<Longrightarrow> nextSignalAt evs = Some t' \<Longrightarrow> t' - lastAt < timeout"
  by (induction timeout lastAt evs rule: spacedActivity.induct) auto

lemma tick_before_timeout:
  "spacedActivity timeout lastAt (Tick t # evs) \<Longrightarrow> t - lastAt < timeout"
proof -
  assume a: "spacedActivity timeout lastAt (Tick t # evs)"
  then obtain t' where n: "nextSignalAt evs = Some t'" and le: "t \<le> t'"
    by (auto split: option.splits)
  from a have "spacedActivity timeout lastAt evs" by simp
  from nextSignal_spaced [OF this n] le show ?thesis by simp
qed

lemma run_active:
  "spacedActivity (inactivityTimeout cfg) (lastActivityAt s) evs \<Longrightarrow>
   state s = Active \<Longrightarrow> lastFocusLostAt s = None \<Longrightarrow>
   state (run cfg s (take n evs)) = Active"
proof (induction evs arbitrary: s n)
  case Nil
  then show ?case by (simp add: run_def)
next
  case (Cons e evs)
  show ?case
  proof (cases n)
    case 0
    with Cons.prems show ?thesis by (simp add: run_def)
  next
    case (Suc m)
    show ?thesis
    proof (cases e)
      case (Signal kind t)
      with Cons.prems have k: "kind = Edit \<or> kind = Cursor"
        and sp: "spacedActivity (inactivityTimeout cfg) t evs" by simp_all
      let ?s = "recordActivity s kind t"
      have "state ?s = Active" "lastFocusLostAt ?s = None" "lastActivityAt ?s = t"
        using k Cons.prems by (auto simp: recordActivity_def)
      with Cons.IH [of ?s m] sp show ?thesis
        by (simp add: run_def Signal Suc)
    next
      case (Tick t)
      with Cons.prems have lt: "t - lastActivityAt s < inactivityTimeout cfg"
        by (simp only: tick_before_timeout)
      from Tick Cons.prems have sp: "spacedActivity (inactivityTimeout cfg) (lastActivityAt s) evs"
        by simp
      have "tick cfg s t = s"
        using lt Cons.prems by (simp add: tick_def)
      with Cons.IH [of s m] sp Cons.prems show ?thesis
        by (simp add: run_def Tick Suc)
    qed
  qed
qed

lemma tick_pauses_late:
  "state s = Active \<Longrightarrow> lastFocusLostAt s = None \<Longrightarrow> state (tick cfg s now) = Paused \<Longrightarrow>
   inactivityTimeout cfg < now - lastActivityAt s"
  by (auto simp: tick_def split: if_splits)

text \<open>
  Claim C8. For every sequence of activity signals in which consecutive signals are spaced
  less than \<^verbatim>\<open>inactivityTimeout\<close> apart while the editor is focused, with scheduler ticks
  anywhere between them, the session is Active after every event of the sequence. And a
  tick takes an Active, focused session to Paused only when more than
  \<^verbatim>\<open>inactivityTimeout\<close> has passed since the last activity.
\<close>

theorem stays_active_while_signals_spaced:
  "(spacedActivity (inactivityTimeout cfg) (lastActivityAt s) evs \<and> state s = Active \<and>
    lastFocusLostAt s = None \<longrightarrow>
      (\<forall>n\<le>length evs. state (run cfg s (take n evs)) = Active)) \<and>
   (state s = Active \<and> lastFocusLostAt s = None \<and> state (tick cfg s now) = Paused \<longrightarrow>
      inactivityTimeout cfg < now - lastActivityAt s)"
  using run_active [of cfg s evs] tick_pauses_late [of s cfg now] by blast

theorem stays_active_while_signals_spaced_witness:
  "spacedActivity (inactivityTimeout example_config) (lastActivityAt example_session) example_events \<and>
   state example_session = Active \<and> lastFocusLostAt example_session = None \<and>
   state (run example_config example_session (take 4 example_events)) = Active \<and>
   state (run example_config example_session example_events) = Active \<and>
   state (tick example_config example_session 150001) = Paused \<and>
   inactivityTimeout example_config < 150001 - lastActivityAt example_session \<and>
   state (tick example_config example_session 150000) = Active"
proof -
  note T = stays_active_while_signals_spaced [of example_config example_session example_events 150001]
  have h: "spacedActivity (inactivityTimeout example_config) (lastActivityAt example_session) example_events"
    by (simp add: example_config_def example_session_def example_events_def)
  have a: "state example_session = Active" "lastFocusLostAt example_session = None"
    by (simp_all add: example_session_def)
  have all: "\<forall>n\<le>length example_events. state (run example_config example_session (take n example_events)) = Active"
    using T h a by blast
  have c4: "state (run example_config example_session (take 4 example_events)) = Active"
  proof -
    have "(4::nat) \<le> length example_events" by (simp add: example_events_def)
    with all show ?thesis by blast
  qed
  have c5: "state (run example_config example_session example_events) = Active"
    using all [rule_format, of "length example_events"] by simp
  have p: "state (tick example_config example_session 150001) = Paused"
    by (simp add: tick_def example_config_def example_session_def)
  have late: "inactivityTimeout example_config < 150001 - lastActivityAt example_session"
    using T a p by blast
  have b: "state (tick example_config example_session 150000) = Active"
    by (simp add: tick_def example_config_def example_session_def)
  from h a c4 c5 p late b show ?thesis by blast
qed

end
